theory Spec2Isabelle
  imports Main
begin

section \<open>Shallow embedding of job\_launcher.c\<close>

text \<open>
  The launcher keeps one process-wide \<open>launcher_session_t\<close> and talks to three outside
  parties: the C library (\<open>fopen\<close>, \<open>fgets\<close>, \<open>malloc\<close>, \<open>free\<close>, \<open>atoi\<close>), the name
  resolver \<open>hostname_to_netaddr\<close> and the comlink transport. The session is a record; every
  call that leaves the program is appended to a trace of effects kept beside the session;
  what the outside answers is read from an environment record, so that every theorem
  below holds for every answer the outside can give.
\<close>

subsection \<open>Constants\<close>

definition MAX_CMD_ARGS :: int where
  "MAX_CMD_ARGS = 6"

definition MAX_INSTANCES :: int where
  "MAX_INSTANCES = 100"

definition COMLINK_PORT :: nat where
  "COMLINK_PORT = 25000"

definition COMLINK_BUF_SIZE :: nat where
  "COMLINK_BUF_SIZE = 1024"

subsection \<open>Data\<close>

text \<open>
  The message types and the two structs of the transport come from the headers
  \<open>job_launcher.h\<close> and \<open>common.h\<close>, which are not part of the source tree: the
  enumerants are kept as constructors, the header as its two fields.
\<close>

datatype msg_type = CTRL_MESSAGE | PROC_INSTANCES | EXEC_FILENAME

record comlink_header =
  hdr_type :: msg_type
  hdr_len :: int

text \<open>
  The buffer handed to \<open>comlink_sendto_server\<close> is a pointer; the model records the object
  it points to: the \<open>instances\<close> field of the session, or a NUL-terminated string.
\<close>

datatype payload = Instances_obj int | C_string string

text \<open>
  The parameters handed to \<open>comlink_client_setup\<close>. The two callbacks are pointers to
  functions of the launcher, NULL (\<open>None\<close>) while the struct is zero; the pointer to the
  static receive buffer is left out.
\<close>

datatype callback = Launcher_rxmsg_callback | Launcher_shutdown_callback

record comlink_params =
  buf_len :: nat
  local_port :: nat
  remote_port :: nat
  remote_ip :: nat
  receive_cb :: "callback option"
  shutdown_cb :: "callback option"

datatype log_line =
    Log_usage
  | Log_options int string string
  | Log_alloc_error
  | Log_host_name string
  | Log_report string
  | Log_ack_all
  | Log_peer_shutdown
  | Log_conn_failed nat
  | Log_host nat string
  | Log_start_failed
  | Log_ctrl_c

datatype effect =
    Sent int comlink_header payload int
  | Freed nat
  | Comlink_setup comlink_params
  | Comlink_start
  | Comlink_shutdown
  | Comlink_close int
  | Print log_line

text \<open>
  \<open>host_info\<close> is an array of pointers to \<open>host_info_t\<close>: \<open>None\<close> is the NULL pointer,
  \<open>Some h\<close> an allocated entry whose \<open>hostname\<close> field holds \<open>h\<close>. The array is addressed by
  index; its declared size is in the absent header (\<open>host_capacity\<close> below) and the code
  never compares an index with it. The counters are C \<open>int\<close>s that only count hosts and reports; they are modelled
  as unbounded integers.
\<close>

record session =
  instances :: int
  host_file :: string
  exe_name :: string
  host_count :: nat
  host_info :: "nat \<Rightarrow> string option"
  skt_conns :: "nat \<Rightarrow> int"
  nr_active :: int
  nr_ackd :: int
  valid :: int
  cl_params :: comlink_params

record machine = session +
  eff :: "effect list"

text \<open>The static session of the C file: every byte is zero before \<open>main\<close> runs.\<close>

definition launcher_session :: machine where
  "launcher_session =
     \<lparr>instances = 0, host_file = [], exe_name = [], host_count = 0,
      host_info = (\<lambda>_. None), skt_conns = (\<lambda>_. 0), nr_active = 0, nr_ackd = 0, valid = 0,
      cl_params = \<lparr>buf_len = 0, local_port = 0, remote_port = 0, remote_ip = 0,
                   receive_cb = None, shutdown_cb = None\<rparr>,
      eff = []\<rparr>"

text \<open>
  What the outside answers. \<open>sizeof_int\<close> and \<open>sizeof_char_ptr\<close> are the platform's
  \<open>sizeof(int)\<close> and \<open>sizeof(char *)\<close>; \<open>max_hostname_len\<close> is \<open>MAX_HOSTNAME_LEN\<close> of the
  absent header and \<open>host_capacity\<close> the number of elements of the \<open>host_info\<close> array
  declared there; \<open>fopen_rb\<close> gives the bytes of a file, or \<open>None\<close> when it cannot be opened;
  \<open>malloc_ok k\<close> says whether the \<open>k\<close>-th allocation succeeds; \<open>hostname_to_netaddr\<close>
  gives the address in host byte order, or \<open>None\<close> for a non-zero status;
  \<open>comlink_client_setup\<close> gives the descriptor returned for the host at an index;
  \<open>comlink_send_result\<close> gives the status of a send, which may depend on everything
  that happened before it.
\<close>

record env =
  sizeof_int :: int
  sizeof_char_ptr :: int
  max_hostname_len :: nat
  host_capacity :: nat
  fopen_rb :: "string \<Rightarrow> string option"
  malloc_ok :: "nat \<Rightarrow> bool"
  hostname_to_netaddr :: "string \<Rightarrow> nat option"
  comlink_client_setup :: "nat \<Rightarrow> comlink_params \<Rightarrow> int"
  comlink_send_result :: "effect list \<Rightarrow> int \<Rightarrow> comlink_header \<Rightarrow> payload \<Rightarrow> int \<Rightarrow> int"

text \<open>
  Ways in which a function of the launcher does not return to its caller: a call of
  \<open>exit\<close> with its status and the place of the call, a read through a NULL host entry,
  a loop that cannot reach its end, and a store past the last element of the
  \<open>host_info\<close> array, which is undefined in C: the code has no test for it, returns no
  status for it and prints nothing. A run that stops keeps no trace: what is printed
  just before an \<open>exit\<close> is not recorded.
\<close>

datatype exit_site = Bad_options | Hostfile_unreadable | No_hosts | Setup_failed

datatype stop = Exit int exit_site | Null_dereference | No_progress | Store_past_array

definition emit :: "effect \<Rightarrow> machine \<Rightarrow> machine" where
  "emit e m = m\<lparr>eff := eff m @ [e]\<rparr>"

subsection \<open>Cleanup\<close>

text \<open>
  One turn of the loop of \<open>launcher_session_cleanup\<close>: \<open>free\<close> is guarded by the test, the
  store of NULL is not (the indentation of the source suggests otherwise).
\<close>

definition cleanup_entry :: "nat \<Rightarrow> machine \<Rightarrow> machine" where
  "cleanup_entry i m =
     (let m1 = (if host_info m i \<noteq> None then emit (Freed i) m else m)
      in m1\<lparr>host_info := (host_info m1)(i := None)\<rparr>)"

definition launcher_session_cleanup :: "machine \<Rightarrow> machine" where
  "launcher_session_cleanup m =
     (if valid m = 0 then m
      else emit Comlink_shutdown
             (fold cleanup_entry [0..<host_count m] (m\<lparr>valid := 0\<rparr>)))"

subsection \<open>Command line\<close>

text \<open>
  \<open>strncmp(a, b, n) == 0\<close> on NUL-terminated strings: the first \<open>n\<close> characters agree, a
  shorter string ending the comparison.
\<close>

definition strncmp_is0 :: "string \<Rightarrow> string \<Rightarrow> nat \<Rightarrow> bool" where
  "strncmp_is0 a b n \<longleftrightarrow> take n a = take n b"

definition isspace :: "char \<Rightarrow> bool" where
  "isspace c \<longleftrightarrow> c \<in> set [CHR '' '', CHR 0x09, CHR 0x0A, CHR 0x0B, CHR 0x0C, CHR 0x0D]"

definition isdigit :: "char \<Rightarrow> bool" where
  "isdigit c \<longleftrightarrow> c \<in> set ''0123456789''"

fun digits_value :: "int \<Rightarrow> string \<Rightarrow> int" where
  "digits_value acc [] = acc"
| "digits_value acc (c # cs) =
     (if isdigit c then digits_value (acc * 10 + (of_char c - 48)) cs else acc)"

text \<open>
  \<open>atoi\<close>: leading white space, an optional sign, then decimal digits up to the first
  other character; 0 when there is no digit. A value outside the range of \<open>int\<close> is
  undefined in C and is left as it is here.
\<close>

definition atoi :: "string \<Rightarrow> int" where
  "atoi s =
     (case dropWhile isspace s of
        [] \<Rightarrow> 0
      | c # cs \<Rightarrow>
          if c = CHR ''-'' then - digits_value 0 cs
          else if c = CHR ''+'' then digits_value 0 cs
          else digits_value 0 (c # cs))"

text \<open>
  \<open>argc\<close> is the length of \<open>argv\<close>. The two \<open>strcpy\<close> calls copy into fields whose sizes
  are in the absent header; the model copies the whole string.
\<close>

definition parse_cmdline :: "string list \<Rightarrow> machine \<Rightarrow> int \<times> machine" where
  "parse_cmdline argv m =
     (if int (length argv) < MAX_CMD_ARGS then (- 1, emit (Print Log_usage) m)
      else
        let m1 = (if strncmp_is0 (argv ! 1) ''-np'' 3
                  then m\<lparr>instances := atoi (argv ! 2)\<rparr> else m);
            m2 = (if strncmp_is0 (argv ! 3) ''-hostfile'' 9
                  then m1\<lparr>host_file := argv ! 4\<rparr> else m1);
            m3 = m2\<lparr>exe_name := argv ! 5\<rparr>
        in if (instances m3 < 0 \<and> instances m3 > MAX_INSTANCES)
              \<or> strncmp_is0 (host_file m3) [] 1
              \<or> strncmp_is0 (exe_name m3) [] 1
           then (- 1, m3)
           else (0, emit (Print (Log_options (instances m3) (host_file m3) (exe_name m3))) m3))"

subsection \<open>Host file\<close>

text \<open>
  \<open>alloc_host_entry\<close> stores the result of \<open>malloc\<close> in the slot \<open>host_index\<close> and reports
  whether it is NULL. \<open>k\<close> numbers the allocation; the fresh entry's hostname holds
  nothing yet. The store comes before the test of the pointer and is made whatever the
  index: at an index the array does not have it is the store past the array.
\<close>

definition alloc_host_entry ::
  "env \<Rightarrow> nat \<Rightarrow> nat \<Rightarrow> machine \<Rightarrow> stop + (int \<times> machine)" where
  "alloc_host_entry env k host_index m =
     (if host_capacity env \<le> host_index then Inl Store_past_array
      else if malloc_ok env k
      then Inr (0, m\<lparr>host_info := (host_info m)(host_index \<mapsto> [])\<rparr>)
      else Inr (- 1, emit (Print Log_alloc_error)
                       (m\<lparr>host_info := (host_info m)(host_index := None)\<rparr>)))"

text \<open>
  The characters one call \<open>fgets(buffer, n, fp)\<close> reads when \<open>k = n - 1\<close>: at most \<open>k\<close>,
  stopping after a newline or at the end of the file.
\<close>

fun fgets_chars :: "nat \<Rightarrow> string \<Rightarrow> string" where
  "fgets_chars 0 cs = []"
| "fgets_chars (Suc k) [] = []"
| "fgets_chars (Suc k) (c # cs) = (if c = CHR 0x0A then [c] else c # fgets_chars k cs)"

text \<open>\<open>strcpy\<close> copies up to the first NUL of its source.\<close>

definition strcpy :: "string \<Rightarrow> string" where
  "strcpy src = takeWhile (\<lambda>c. c \<noteq> CHR 0x00) src"

text \<open>The body of the \<open>while\<close> loop of \<open>parse_hostfile\<close>, for the characters read.\<close>

definition hostfile_entry :: "env \<Rightarrow> nat \<Rightarrow> string \<Rightarrow> machine \<Rightarrow> stop + machine" where
  "hostfile_entry env k buffer m =
     (case alloc_host_entry env k (host_count m) m of
        Inl s \<Rightarrow> Inl s
      | Inr (status, m1) \<Rightarrow>
          if status = 0 then
            let count = host_count m1;
                m2 = m1\<lparr>host_info := (host_info m1)(count \<mapsto> strcpy buffer)\<rparr>;
                m3 = emit (Print (Log_host_name (strcpy buffer))) m2
            in Inr (m3\<lparr>host_count := host_count m3 + 1\<rparr>)
          else Inr m1)"

text \<open>
  The loop runs until \<open>fgets\<close> finds the end of the file. With a buffer of fewer than two
  bytes \<open>fgets\<close> reads nothing and the end is never reached: \<open>No_progress\<close>.
\<close>

lemma fgets_chars_progress: "0 < n \<Longrightarrow> cs \<noteq> [] \<Longrightarrow> 0 < length (fgets_chars n cs)"
  by (cases n; cases cs) auto

lemma fgets_chars_shorter:
  assumes "\<not> n \<le> Suc 0" and "cs \<noteq> []"
  shows "length cs - length (fgets_chars (n - Suc 0) cs) < length cs"
proof -
  have "0 < length (fgets_chars (n - Suc 0) cs)"
    using assms by (intro fgets_chars_progress) auto
  with assms(2) show ?thesis
    by (cases cs) auto
qed

function hostfile_loop :: "env \<Rightarrow> nat \<Rightarrow> string \<Rightarrow> machine \<Rightarrow> stop + machine" where
  "hostfile_loop env k rest m =
     (if max_hostname_len env \<le> 1 then Inl No_progress
      else if rest = [] then Inr m
      else
        (case hostfile_entry env k (fgets_chars (max_hostname_len env - 1) rest) m of
           Inl s \<Rightarrow> Inl s
         | Inr m1 \<Rightarrow>
             hostfile_loop env (Suc k)
               (drop (length (fgets_chars (max_hostname_len env - 1) rest)) rest) m1))"
  by pat_completeness auto

termination hostfile_loop
  by (relation "measure (\<lambda>(env, k, rest, m). length rest)") (simp_all add: fgets_chars_shorter)

declare hostfile_loop.simps [simp del]

definition parse_hostfile :: "env \<Rightarrow> string \<Rightarrow> machine \<Rightarrow> stop + (int \<times> machine)" where
  "parse_hostfile env file m =
     (case fopen_rb env file of
        None \<Rightarrow> Inl (Exit 2 Hostfile_unreadable)
      | Some bytes \<Rightarrow>
          (case hostfile_loop env 0 bytes (m\<lparr>host_count := 0\<rparr>) of
             Inl s \<Rightarrow> Inl s
           | Inr m' \<Rightarrow> Inr (int (host_count m'), m')))"

subsection \<open>Callbacks of the transport\<close>

definition launcher_rxmsg_callback :: "int \<Rightarrow> nat \<Rightarrow> string \<Rightarrow> int \<Rightarrow> machine \<Rightarrow> machine" where
  "launcher_rxmsg_callback fd mtype buf len m =
     (let m1 = emit (Print (Log_report buf)) m;
          m2 = m1\<lparr>nr_ackd := nr_ackd m1 + 1\<rparr>
      in if nr_active m2 \<le> nr_ackd m2
         then launcher_session_cleanup (emit (Print Log_ack_all) m2)
         else m2)"

definition launcher_shutdown_callback :: "int \<Rightarrow> machine \<Rightarrow> machine" where
  "launcher_shutdown_callback fd m =
     (let m1 = emit (Print Log_peer_shutdown) m
      in if fd > 0 then emit (Comlink_close fd) m1 else m1)"

subsection \<open>Session setup\<close>

definition launcher_params :: comlink_params where
  "launcher_params =
     \<lparr>buf_len = COMLINK_BUF_SIZE, local_port = COMLINK_PORT, remote_port = COMLINK_PORT,
      remote_ip = 0, receive_cb = Some Launcher_rxmsg_callback,
      shutdown_cb = Some Launcher_shutdown_callback\<rparr>"

text \<open>One turn of the loop of \<open>launcher_session_setup\<close>, for the hostname of entry \<open>i\<close>.\<close>

definition setup_host :: "env \<Rightarrow> nat \<Rightarrow> string \<Rightarrow> machine \<Rightarrow> machine" where
  "setup_host env i h m =
     (case hostname_to_netaddr env h of
        None \<Rightarrow> m
      | Some ip \<Rightarrow>
          let m1 = m\<lparr>cl_params := (cl_params m)\<lparr>remote_ip := ip\<rparr>\<rparr>;
              fd = comlink_client_setup env i (cl_params m1);
              m2 = emit (Comlink_setup (cl_params m1)) m1;
              m3 = m2\<lparr>skt_conns := (skt_conns m2)(i := fd)\<rparr>
          in if fd = - 1 then emit (Print (Log_conn_failed ip)) m3
             else m3\<lparr>nr_active := nr_active m3 + 1\<rparr>)"

text \<open>The loop reads \<open>host_info[i]->hostname\<close>: a NULL entry stops the program.\<close>

fun setup_loop :: "env \<Rightarrow> nat list \<Rightarrow> machine \<Rightarrow> stop + machine" where
  "setup_loop env [] m = Inr m"
| "setup_loop env (i # is) m =
     (case host_info m i of
        None \<Rightarrow> Inl Null_dereference
      | Some h \<Rightarrow> setup_loop env is (setup_host env i h m))"

definition launcher_session_setup :: "env \<Rightarrow> machine \<Rightarrow> stop + (int \<times> machine)" where
  "launcher_session_setup env m =
     (let m0 = m\<lparr>nr_ackd := 0, nr_active := 0, valid := 1, cl_params := launcher_params\<rparr>
      in case setup_loop env [0..<host_count m0] m0 of
           Inl s \<Rightarrow> Inl s
         | Inr m' \<Rightarrow> Inr (0, m'))"

subsection \<open>Control messages\<close>

definition fill_header :: "msg_type \<Rightarrow> int \<Rightarrow> comlink_header" where
  "fill_header t l = \<lparr>hdr_type = t, hdr_len = l\<rparr>"

definition comlink_sendto_server ::
  "env \<Rightarrow> int \<Rightarrow> comlink_header \<Rightarrow> payload \<Rightarrow> int \<Rightarrow> machine \<Rightarrow> int \<times> machine" where
  "comlink_sendto_server env fd header buf len m =
     (comlink_send_result env (eff m) fd header buf len, emit (Sent fd header buf len) m)"

text \<open>\<open>len = sizeof(msg)\<close> with \<open>msg\<close> of type \<open>char *\<close>: the size of a pointer.\<close>

definition launcher_send_ctrlmsg :: "env \<Rightarrow> int \<Rightarrow> string \<Rightarrow> machine \<Rightarrow> int \<times> machine" where
  "launcher_send_ctrlmsg env fd msg m =
     (let len = sizeof_char_ptr env;
          header = fill_header CTRL_MESSAGE len
      in comlink_sendto_server env fd header (C_string msg) len m)"

subsection \<open>Dispatch\<close>

text \<open>
  One turn of the loop of \<open>launcher_session_start\<close> for entry \<open>i\<close> with hostname \<open>h\<close>; the
  first argument of every send is the loop index. \<open>ret\<close> is overwritten by the first two
  sends and not by the third.
\<close>

definition start_host :: "env \<Rightarrow> nat \<Rightarrow> string \<Rightarrow> machine \<Rightarrow> int \<times> machine" where
  "start_host env i h m =
     (let m1 = emit (Print (Log_host i h)) m;
          len1 = sizeof_int env;
          (ret1, m2) = comlink_sendto_server env (int i) (fill_header PROC_INSTANCES len1)
                         (Instances_obj (instances m1)) len1 m1;
          len2 = int (length (exe_name m2));
          (ret2, m3) = comlink_sendto_server env (int i) (fill_header EXEC_FILENAME len2)
                         (C_string (exe_name m2)) len2 m2;
          (ret3, m4) = launcher_send_ctrlmsg env (int i) ''start'' m3
      in (ret2, if ret3 = - 1 then emit (Print Log_start_failed) m4 else m4))"

fun start_loop :: "env \<Rightarrow> nat list \<Rightarrow> int \<times> machine \<Rightarrow> stop + (int \<times> machine)" where
  "start_loop env [] rm = Inr rm"
| "start_loop env (i # is) rm =
     (case host_info (snd rm) i of
        None \<Rightarrow> Inl Null_dereference
      | Some h \<Rightarrow> start_loop env is (start_host env i h (snd rm)))"

subsection \<open>Interrupt\<close>

definition stop_host :: "env \<Rightarrow> nat \<Rightarrow> machine \<Rightarrow> machine" where
  "stop_host env i m = snd (launcher_send_ctrlmsg env (int i) ''stop'' m)"

definition launcher_signal_handler :: "env \<Rightarrow> machine \<Rightarrow> machine" where
  "launcher_signal_handler env m =
     launcher_session_cleanup
       (fold (stop_host env) [0..<host_count m] (emit (Print Log_ctrl_c) m))"

subsection \<open>The event loop and the entry point\<close>

text \<open>
  \<open>comlink_client_start\<close> belongs to the transport. It blocks and calls the launcher
  back: the receive callback for a message, the shutdown callback for a peer that
  went away; SIGINT runs the signal handler. The events it delivers before it returns
  are an argument of the model, and each runs to its end before the next begins.
\<close>

datatype event = Rx int nat string int | Peer_shutdown int | Sigint

fun deliver :: "env \<Rightarrow> event \<Rightarrow> machine \<Rightarrow> machine" where
  "deliver env (Rx fd mtype buf len) m = launcher_rxmsg_callback fd mtype buf len m"
| "deliver env (Peer_shutdown fd) m = launcher_shutdown_callback fd m"
| "deliver env Sigint m = launcher_signal_handler env m"

definition comlink_client_start :: "env \<Rightarrow> event list \<Rightarrow> machine \<Rightarrow> machine" where
  "comlink_client_start env evs m = fold (deliver env) evs (emit Comlink_start m)"

definition launcher_session_start ::
  "env \<Rightarrow> event list \<Rightarrow> machine \<Rightarrow> stop + (int \<times> machine)" where
  "launcher_session_start env evs m =
     (case start_loop env [0..<host_count m] (0, m) of
        Inl s \<Rightarrow> Inl s
      | Inr (ret, m') \<Rightarrow> Inr (ret, comlink_client_start env evs m'))"

text \<open>
  \<open>main\<close>, from the static session. The warning printed when \<open>sigaction\<close> fails is left
  out; every \<open>exit(2)\<close> carries the place it is called from.
\<close>

definition main :: "env \<Rightarrow> string list \<Rightarrow> event list \<Rightarrow> stop + (int \<times> machine)" where
  "main env argv evs =
     (case parse_cmdline argv launcher_session of
        (r1, m1) \<Rightarrow>
          if r1 = - 1 then Inl (Exit 2 Bad_options)
          else
            (case parse_hostfile env (host_file m1) m1 of
               Inl s \<Rightarrow> Inl s
             | Inr (count, m2) \<Rightarrow>
                 if count \<le> 0 then Inl (Exit 2 No_hosts)
                 else
                   (case launcher_session_setup env m2 of
                      Inl s \<Rightarrow> Inl s
                    | Inr (r3, m3) \<Rightarrow>
                        if r3 \<noteq> 0 then Inl (Exit 2 Setup_failed)
                        else
                          (case launcher_session_start env evs m3 of
                             Inl s \<Rightarrow> Inl s
                           | Inr (r4, m4) \<Rightarrow> Inr (0, launcher_session_cleanup m4)))))"

subsection \<open>Observations used by the theorems\<close>

text \<open>The effects that tear the session down: a \<open>free\<close> of a host entry and the shutdown
  of the transport.\<close>

definition is_teardown :: "effect \<Rightarrow> bool" where
  "is_teardown e = (case e of Freed i \<Rightarrow> True | Comlink_shutdown \<Rightarrow> True | _ \<Rightarrow> False)"

text \<open>A run of status reports: the receive callback once for each, in order.\<close>

definition status_reports :: "(int \<times> nat \<times> string \<times> int) list \<Rightarrow> machine \<Rightarrow> machine" where
  "status_reports rs m =
     fold (\<lambda>(fd, mtype, buf, len). launcher_rxmsg_callback fd mtype buf len) rs m"

text \<open>
  What setup meets at host \<open>i\<close>: \<open>None\<close> when the entry is NULL or its name does not
  resolve, otherwise the descriptor \<open>comlink_client_setup\<close> returns for the resolved
  address. A host is connected when that descriptor is not \<open>-1\<close>, refused when it is.
\<close>

definition attempt :: "env \<Rightarrow> (nat \<Rightarrow> string option) \<Rightarrow> nat \<Rightarrow> int option" where
  "attempt env hosts i =
     (case hosts i of
        None \<Rightarrow> None
      | Some h \<Rightarrow>
          (case hostname_to_netaddr env h of
             None \<Rightarrow> None
           | Some ip \<Rightarrow> Some (comlink_client_setup env i (launcher_params\<lparr>remote_ip := ip\<rparr>))))"

definition connected :: "env \<Rightarrow> (nat \<Rightarrow> string option) \<Rightarrow> nat \<Rightarrow> bool" where
  "connected env hosts i = (case attempt env hosts i of None \<Rightarrow> False | Some fd \<Rightarrow> fd \<noteq> - 1)"

definition refused :: "env \<Rightarrow> (nat \<Rightarrow> string option) \<Rightarrow> nat \<Rightarrow> bool" where
  "refused env hosts i = (attempt env hosts i = Some (- 1))"




text \<open>Any message printed, and the message setup prints for a refused connection.\<close>

definition is_print :: "effect \<Rightarrow> bool" where
  "is_print e = (case e of Print l \<Rightarrow> True | _ \<Rightarrow> False)"

definition is_conn_failed :: "effect \<Rightarrow> bool" where
  "is_conn_failed e = (case e of Print (Log_conn_failed ip) \<Rightarrow> True | _ \<Rightarrow> False)"

text \<open>The sends of a trace, in order: destination, message type and payload object.\<close>

fun sent_messages :: "effect list \<Rightarrow> (int \<times> msg_type \<times> payload) list" where
  "sent_messages [] = []"
| "sent_messages (Sent fd h p l # es) = (fd, hdr_type h, p) # sent_messages es"
| "sent_messages (e # es) = sent_messages es"

text \<open>The bound on acknowledgments that a valid session keeps.\<close>

definition ack_bound :: "machine \<Rightarrow> bool" where
  "ack_bound m \<longleftrightarrow> valid m = 0 \<or> nr_ackd m \<le> nr_active m"


definition entries_stored :: "nat \<Rightarrow> machine \<Rightarrow> bool" where
  "entries_stored n m =
     list_all (\<lambda>i. case host_info m i of None \<Rightarrow> False | Some h \<Rightarrow> length h < n)
       [0..<host_count m]"

text \<open>
  The operations on a session: setup, dispatch followed by the events the event loop
  delivers, a direct call of cleanup (as the last statement of \<open>main\<close>), and an event on
  its own (a callback or the interrupt). A run stops where one of them stops.
\<close>

datatype op = Op_setup | Op_start "event list" | Op_cleanup | Op_event event

fun apply_op :: "env \<Rightarrow> op \<Rightarrow> machine \<Rightarrow> stop + machine" where
  "apply_op env Op_setup m =
     (case launcher_session_setup env m of Inl s \<Rightarrow> Inl s | Inr (r, m') \<Rightarrow> Inr m')"
| "apply_op env (Op_start evs) m =
     (case launcher_session_start env evs m of Inl s \<Rightarrow> Inl s | Inr (r, m') \<Rightarrow> Inr m')"
| "apply_op env Op_cleanup m = Inr (launcher_session_cleanup m)"
| "apply_op env (Op_event e) m = Inr (deliver env e m)"

fun run_ops :: "env \<Rightarrow> op list \<Rightarrow> machine \<Rightarrow> stop + machine" where
  "run_ops env [] m = Inr m"
| "run_ops env (x # xs) m =
     (case apply_op env x m of Inl s \<Rightarrow> Inl s | Inr m' \<Rightarrow> run_ops env xs m')"

subsection \<open>Concrete sessions and environments\<close>

text \<open>
  A 64-bit platform, a buffer of eight bytes for a hostname and room for four host
  entries. The host file \<open>hosts\<close>
  names \<open>alpha\<close> and \<open>beta\<close>; \<open>alpha\<close> connects on descriptor 7, \<open>beta\<close> resolves but
  does not connect; every send of a control command fails.
\<close>

definition demo_env :: env where
  "demo_env =
     \<lparr>sizeof_int = 4, sizeof_char_ptr = 8, max_hostname_len = 8, host_capacity = 4,
      fopen_rb = (\<lambda>f. if f = ''hosts''
                       then Some (''alpha'' @ [CHR 0x0A] @ ''beta'' @ [CHR 0x0A]) else None),
      malloc_ok = (\<lambda>k. True),
      hostname_to_netaddr =
        (\<lambda>h. if h = ''alpha'' @ [CHR 0x0A] then Some 167772161
             else if h = ''beta'' @ [CHR 0x0A] then Some 167772162 else None),
      comlink_client_setup = (\<lambda>i p. if remote_ip p = 167772161 then 7 else - 1),
      comlink_send_result = (\<lambda>past fd h p l. if hdr_type h = CTRL_MESSAGE then - 1 else 0)\<rparr>"

text \<open>The same platform with no name resolving.\<close>

definition demo_env_down :: env where
  "demo_env_down = demo_env\<lparr>hostname_to_netaddr := (\<lambda>h. None)\<rparr>"

text \<open>The session as the two parsers leave it for \<open>-np 4 -hostfile hosts ./job\<close>.\<close>

definition demo_session :: machine where
  "demo_session =
     launcher_session
       \<lparr>instances := 4, host_file := ''hosts'', exe_name := ''./job'', host_count := 2,
        host_info := [0 \<mapsto> ''alpha'' @ [CHR 0x0A], 1 \<mapsto> ''beta'' @ [CHR 0x0A]]\<rparr>"

text \<open>That session once both hosts are connected and no report has arrived.\<close>

definition demo_ready :: machine where
  "demo_ready = demo_session\<lparr>nr_active := 2, valid := 1, cl_params := launcher_params\<rparr>"



text \<open>The platform of the example with both names resolving and every connect refused.\<close>

definition demo_env_refused :: env where
  "demo_env_refused = demo_env\<lparr>comlink_client_setup := (\<lambda>i p. - 1)\<rparr>"

text \<open>The command line of the example.\<close>

definition demo_argv :: "string list" where
  "demo_argv = [''launcher'', ''-np'', ''4'', ''-hostfile'', ''hosts'', ''./job'']"

section \<open>Properties\<close>

subsection \<open>Fields kept by the elementary steps\<close>

lemma emit_fields [simp]:
  "valid (emit e m) = valid m" "nr_ackd (emit e m) = nr_ackd m"
  "nr_active (emit e m) = nr_active m" "host_count (emit e m) = host_count m"
  "host_info (emit e m) = host_info m" "skt_conns (emit e m) = skt_conns m"
  "instances (emit e m) = instances m" "exe_name (emit e m) = exe_name m"
  "host_file (emit e m) = host_file m" "cl_params (emit e m) = cl_params m"
  "eff (emit e m) = eff m @ [e]"
  by (simp_all add: emit_def)

lemma cleanup_entry_fields [simp]:
  "valid (cleanup_entry i m) = valid m" "nr_ackd (cleanup_entry i m) = nr_ackd m"
  "nr_active (cleanup_entry i m) = nr_active m" "host_count (cleanup_entry i m) = host_count m"
  "skt_conns (cleanup_entry i m) = skt_conns m"
  "instances (cleanup_entry i m) = instances m" "exe_name (cleanup_entry i m) = exe_name m"
  "host_file (cleanup_entry i m) = host_file m" "cl_params (cleanup_entry i m) = cl_params m"
  "host_info (cleanup_entry i m) = (host_info m)(i := None)"
  "eff (cleanup_entry i m) = eff m @ (if host_info m i \<noteq> None then [Freed i] else [])"
  by (simp_all add: cleanup_entry_def Let_def)

lemma fold_cleanup_fields [simp]:
  "valid (fold cleanup_entry is m) = valid m" 
  "nr_ackd (fold cleanup_entry is m) = nr_ackd m"
  "nr_active (fold cleanup_entry is m) = nr_active m" 
  "host_count (fold cleanup_entry is m) = host_count m"
  "skt_conns (fold cleanup_entry is m) = skt_conns m"
  "instances (fold cleanup_entry is m) = instances m" 
  "exe_name (fold cleanup_entry is m) = exe_name m"
  "host_file (fold cleanup_entry is m) = host_file m" 
  "cl_params (fold cleanup_entry is m) = cl_params m"
  by (induction "is" arbitrary: m; simp)+

lemma fold_cleanup_host_info:
  "host_info (fold cleanup_entry is m) = (\<lambda>i. if i \<in> set is then None else host_info m i)"
  by (induction "is" arbitrary: m) (auto simp: fun_eq_iff)

lemma fold_cleanup_eff:
  "distinct is \<Longrightarrow>
   eff (fold cleanup_entry is m) = eff m @ map Freed (filter (\<lambda>i. host_info m i \<noteq> None) is)"
proof (induction "is" arbitrary: m)
  case Nil
  then show ?case by simp
next
  case (Cons a "is")
  have same: "filter (\<lambda>i. host_info (cleanup_entry a m) i \<noteq> None) is
              = filter (\<lambda>i. host_info m i \<noteq> None) is"
    using Cons.prems by (intro filter_cong) auto
  have unroll: "fold cleanup_entry (a # is) m = fold cleanup_entry is (cleanup_entry a m)"
    by simp
  have rest: "eff (fold cleanup_entry is (cleanup_entry a m)) =
      eff (cleanup_entry a m)
        @ map Freed (filter (\<lambda>i. host_info (cleanup_entry a m) i \<noteq> None) is)"
    using Cons.prems by (intro Cons.IH) simp
  have first: "eff (cleanup_entry a m) = eff m @ (if host_info m a \<noteq> None then [Freed a] else [])"
    by simp
  show ?case
    unfolding unroll rest same first by simp
qed

lemma cleanup_valid: "valid (launcher_session_cleanup m) = 0"
  by (simp add: launcher_session_cleanup_def)

lemma cleanup_idem: "launcher_session_cleanup (launcher_session_cleanup m) = launcher_session_cleanup m"
  using cleanup_valid [of m] by (simp add: launcher_session_cleanup_def [of "launcher_session_cleanup m"])

lemma cleanup_eff:
  "eff (launcher_session_cleanup m) =
     (if valid m = 0 then eff m
      else eff m @ map Freed (filter (\<lambda>i. host_info m i \<noteq> None) [0..<host_count m])
             @ [Comlink_shutdown])"
  by (simp add: launcher_session_cleanup_def fold_cleanup_eff)

lemma cleanup_host_info:
  "host_info (launcher_session_cleanup m) =
     (if valid m = 0 then host_info m
      else (\<lambda>i. if i < host_count m then None else host_info m i))"
  by (simp add: launcher_session_cleanup_def fold_cleanup_host_info cong: if_cong)

lemma cleanup_counters [simp]:
  "nr_ackd (launcher_session_cleanup m) = nr_ackd m"
  "nr_active (launcher_session_cleanup m) = nr_active m"
  "host_count (launcher_session_cleanup m) = host_count m"
  by (simp_all add: launcher_session_cleanup_def)

lemma cleanup_invalid: "valid m = 0 \<Longrightarrow> launcher_session_cleanup m = m"
  by (simp add: launcher_session_cleanup_def)

lemma rx_counters [simp]:
  "nr_ackd (launcher_rxmsg_callback fd t b l m) = nr_ackd m + 1"
  "nr_active (launcher_rxmsg_callback fd t b l m) = nr_active m"
  "host_count (launcher_rxmsg_callback fd t b l m) = host_count m"
  by (simp_all add: launcher_rxmsg_callback_def Let_def)

lemma rx_valid:
  "valid (launcher_rxmsg_callback fd t b l m) = (if nr_active m \<le> nr_ackd m + 1 then 0 else valid m)"
  by (simp add: launcher_rxmsg_callback_def Let_def cleanup_valid)

lemma rx_teardown:
  "filter is_teardown (eff (launcher_rxmsg_callback fd t b l m)) =
     filter is_teardown (eff m)
       @ (if valid m \<noteq> 0 \<and> nr_active m \<le> nr_ackd m + 1
          then map Freed (filter (\<lambda>i. host_info m i \<noteq> None) [0..<host_count m])
                 @ [Comlink_shutdown]
          else [])"
  "host_info (launcher_rxmsg_callback fd t b l m) =
     (if valid m \<noteq> 0 \<and> nr_active m \<le> nr_ackd m + 1
      then (\<lambda>i. if i < host_count m then None else host_info m i)
      else host_info m)"
  by (simp_all add: launcher_rxmsg_callback_def Let_def cleanup_eff cleanup_host_info
      is_teardown_def cong: if_cong)

lemma reports_host_count [simp]: "host_count (status_reports rs m) = host_count m"
  by (induction rs arbitrary: m) (simp_all add: status_reports_def split_beta)

lemma reports_counters:
  "nr_ackd (status_reports rs m) = nr_ackd m + int (length rs)"
  "nr_active (status_reports rs m) = nr_active m"
  by (induction rs arbitrary: m; simp add: status_reports_def split_beta)+

lemma reports_valid:
  "valid m \<noteq> 0 \<Longrightarrow>
   valid (status_reports rs m) \<noteq> 0 \<longleftrightarrow> rs = [] \<or> nr_ackd m + int (length rs) < nr_active m"
proof (induction rs arbitrary: m rule: rev_induct)
  case Nil
  then show ?case by (simp add: status_reports_def)
next
  case (snoc r rs)
  obtain fd t b l where r: "r = (fd, t, b, l)" by (cases r) auto
  have step: "status_reports (rs @ [r]) m = launcher_rxmsg_callback fd t b l (status_reports rs m)"
    by (simp add: status_reports_def r)
  show ?case
    using snoc.IH [OF snoc.prems] snoc.prems
    by (auto simp: step rx_valid reports_counters)
qed

lemma reports_teardown:
  assumes "valid m \<noteq> 0"
  shows "filter is_teardown (eff (status_reports rs m)) =
           filter is_teardown (eff m)
             @ (if rs = [] \<or> nr_ackd m + int (length rs) < nr_active m then []
                else map Freed (filter (\<lambda>i. host_info m i \<noteq> None) [0..<host_count m])
                       @ [Comlink_shutdown])
       \<and> host_info (status_reports rs m) =
           (if rs = [] \<or> nr_ackd m + int (length rs) < nr_active m then host_info m
            else (\<lambda>i. if i < host_count m then None else host_info m i))"
proof (induction rs rule: rev_induct)
  case Nil
  show ?case by (simp add: status_reports_def)
next
  case (snoc r rs)
  obtain fd t b l where r: "r = (fd, t, b, l)" by (cases r) auto
  let ?M = "status_reports rs m"
  have step: "status_reports (rs @ [r]) m = launcher_rxmsg_callback fd t b l ?M"
    by (simp add: status_reports_def r)
  note before = reports_valid [OF assms, of rs]
  show ?case
  proof (cases "rs = [] \<or> nr_ackd m + int (length rs) < nr_active m")
    case True
    with before have live: "valid ?M \<noteq> 0"
      by simp
    from snoc.IH True have same: "filter is_teardown (eff ?M) = filter is_teardown (eff m)"
      "host_info ?M = host_info m"
      by simp_all
    show ?thesis
      unfolding step rx_teardown using live same
      by (auto simp: reports_counters)
  next
    case False
    with before have dead: "valid ?M = 0"
      by simp
    from False have late: "\<not> (nr_ackd m + int (length (rs @ [r])) < nr_active m)"
      by simp
    show ?thesis
      unfolding step rx_teardown using dead snoc.IH False late
      by simp
  qed
qed

lemma send_fields [simp]:
  "valid (snd (comlink_sendto_server env fd h p l m)) = valid m"
  "nr_ackd (snd (comlink_sendto_server env fd h p l m)) = nr_ackd m"
  "nr_active (snd (comlink_sendto_server env fd h p l m)) = nr_active m"
  "host_count (snd (comlink_sendto_server env fd h p l m)) = host_count m"
  "host_info (snd (comlink_sendto_server env fd h p l m)) = host_info m"
  "instances (snd (comlink_sendto_server env fd h p l m)) = instances m"
  "exe_name (snd (comlink_sendto_server env fd h p l m)) = exe_name m"
  "eff (snd (comlink_sendto_server env fd h p l m)) = eff m @ [Sent fd h p l]"
  by (simp_all add: comlink_sendto_server_def)

lemma stop_host_fields [simp]:
  "valid (stop_host env i m) = valid m"
  "nr_ackd (stop_host env i m) = nr_ackd m"
  "nr_active (stop_host env i m) = nr_active m"
  "host_count (stop_host env i m) = host_count m"
  "host_info (stop_host env i m) = host_info m"
  "eff (stop_host env i m) =
     eff m @ [Sent (int i) (fill_header CTRL_MESSAGE (sizeof_char_ptr env)) (C_string ''stop'')
                (sizeof_char_ptr env)]"
  by (simp_all add: stop_host_def launcher_send_ctrlmsg_def Let_def)

lemma fold_stop_fields [simp]:
  "valid (fold (stop_host env) is m) = valid m"
  "nr_ackd (fold (stop_host env) is m) = nr_ackd m"
  "nr_active (fold (stop_host env) is m) = nr_active m"
  "host_count (fold (stop_host env) is m) = host_count m"
  "host_info (fold (stop_host env) is m) = host_info m"
  by (induction "is" arbitrary: m; simp)+

lemma fold_stop_teardown [simp]:
  "filter is_teardown (eff (fold (stop_host env) is m)) = filter is_teardown (eff m)"
  by (induction "is" arbitrary: m) (simp_all add: is_teardown_def)

lemma deliver_invalid:
  assumes "valid m = 0"
  shows "valid (deliver env e m) = 0"
    and "filter is_teardown (eff (deliver env e m)) = filter is_teardown (eff m)"
    and "host_info (deliver env e m) = host_info m"
  using assms
  by (cases e; simp add: launcher_rxmsg_callback_def launcher_shutdown_callback_def
        launcher_signal_handler_def Let_def cleanup_invalid is_teardown_def)+

lemma events_invalid:
  assumes "valid m = 0"
  shows "valid (fold (deliver env) evs m) = 0
         \<and> filter is_teardown (eff (fold (deliver env) evs m)) = filter is_teardown (eff m)
         \<and> host_info (fold (deliver env) evs m) = host_info m"
  using assms
proof (induction evs arbitrary: m)
  case Nil
  then show ?case by simp
next
  case (Cons e evs)
  show ?case
    using Cons.IH [of "deliver env e m"] deliver_invalid [OF Cons.prems, of env e] by simp
qed

lemma upt_2: "[0..<2] = [0, 1]"
  by (simp add: numeral_2_eq_2)

subsection \<open>Completion by status reports\<close>

text \<open>
  Claim C1, as the code has it. On a valid session every status report adds one to
  \<open>nr_ackd\<close> and leaves \<open>nr_active\<close> alone. Cleanup has run after a run of reports exactly
  when the run is not empty and the count of acknowledgments has reached \<open>nr_active\<close>:
  until then the session is valid, no host entry is freed and the transport is not
  shut down; from then on the validity flag is cleared, every host entry has been
  freed once and is NULL, and the transport has been shut down once. So cleanup is
  triggered by the first report after which \<open>nr_active \<le> nr_ackd\<close> and by no earlier one;
  when an acknowledgment was outstanding at the start, that report is the one that
  makes the two counts equal.
\<close>

theorem C1_cleanup_at_threshold:
  assumes "valid m \<noteq> 0"
  shows "nr_ackd (status_reports rs m) = nr_ackd m + int (length rs)
       \<and> nr_active (status_reports rs m) = nr_active m
       \<and> (valid (status_reports rs m) \<noteq> 0
            \<longleftrightarrow> rs = [] \<or> nr_ackd m + int (length rs) < nr_active m)
       \<and> filter is_teardown (eff (status_reports rs m)) =
           filter is_teardown (eff m)
             @ (if rs = [] \<or> nr_ackd m + int (length rs) < nr_active m then []
                else map Freed (filter (\<lambda>i. host_info m i \<noteq> None) [0..<host_count m])
                       @ [Comlink_shutdown])
       \<and> host_info (status_reports rs m) =
           (if rs = [] \<or> nr_ackd m + int (length rs) < nr_active m then host_info m
            else (\<lambda>i. if i < host_count m then None else host_info m i))
       \<and> (valid (status_reports rs m) \<noteq> 0 \<and> valid (status_reports (rs @ [r]) m) = 0
            \<longrightarrow> nr_active m \<le> nr_ackd (status_reports (rs @ [r]) m)
              \<and> (nr_ackd m < nr_active m
                   \<longrightarrow> nr_ackd (status_reports (rs @ [r]) m) = nr_active m))"
proof -
  have before: "valid (status_reports rs m) \<noteq> 0
      \<longleftrightarrow> rs = [] \<or> nr_ackd m + int (length rs) < nr_active m"
    by (rule reports_valid [OF assms])
  have after: "valid (status_reports (rs @ [r]) m) \<noteq> 0
      \<longleftrightarrow> nr_ackd m + int (length rs) + 1 < nr_active m"
    using reports_valid [OF assms, of "rs @ [r]"] by (simp add: algebra_simps)
  have count: "nr_ackd (status_reports (rs @ [r]) m) = nr_ackd m + int (length rs) + 1"
    by (simp add: reports_counters)
  have last: "valid (status_reports rs m) \<noteq> 0 \<and> valid (status_reports (rs @ [r]) m) = 0
            \<longrightarrow> nr_active m \<le> nr_ackd (status_reports (rs @ [r]) m)
              \<and> (nr_ackd m < nr_active m
                   \<longrightarrow> nr_ackd (status_reports (rs @ [r]) m) = nr_active m)"
    using before after count by auto
  from reports_teardown [OF assms, of rs] before last show ?thesis
    by (simp add: reports_counters)
qed

text \<open>Two connected hosts: the first report leaves the session valid and frees nothing,
  the second clears it with both counts at 2, frees both entries and shuts the
  transport down.\<close>

theorem C1_cleanup_at_threshold_witness:
  "valid demo_ready \<noteq> 0
   \<and> nr_ackd demo_ready < nr_active demo_ready
   \<and> valid (status_reports [(7, 0, ''done'', 4)] demo_ready) \<noteq> 0
   \<and> filter is_teardown (eff (status_reports [(7, 0, ''done'', 4)] demo_ready)) = []
   \<and> valid (status_reports ([(7, 0, ''done'', 4)] @ [(8, 0, ''done'', 4)]) demo_ready) = 0
   \<and> nr_ackd (status_reports ([(7, 0, ''done'', 4)] @ [(8, 0, ''done'', 4)]) demo_ready)
       = nr_active demo_ready
   \<and> filter is_teardown
         (eff (status_reports ([(7, 0, ''done'', 4)] @ [(8, 0, ''done'', 4)]) demo_ready))
       = [Freed 0, Freed 1, Comlink_shutdown]"
proof -
  have ok: "valid demo_ready \<noteq> 0"
    by (simp add: demo_ready_def)
  have less: "nr_ackd demo_ready < nr_active demo_ready"
    by (simp add: demo_ready_def demo_session_def launcher_session_def)
  show ?thesis
    using C1_cleanup_at_threshold [OF ok, of "[(7, 0, ''done'', 4)]" "(8, 0, ''done'', 4)"]
      C1_cleanup_at_threshold [OF ok, of "[(7, 0, ''done'', 4)] @ [(8, 0, ''done'', 4)]"
        "(8, 0, ''done'', 4)"] ok less
    by (simp add: demo_ready_def demo_session_def launcher_session_def upt_2)
qed

text \<open>
  Claim C1 as stated fails where every connection was refused: both names resolve and
  \<open>comlink_client_setup\<close> is called for each host with the receive callback in its
  parameters, both calls return \<open>-1\<close>, and setup leaves a valid session with
  \<open>nr_active = 0\<close>. The first report then triggers cleanup with one acknowledgment
  counted against zero connections.
\<close>

theorem C1_counterexample:
  "(case launcher_session_setup demo_env_refused demo_session of
      Inl s \<Rightarrow> False
    | Inr (r, m) \<Rightarrow>
        Comlink_setup (launcher_params\<lparr>remote_ip := 167772161\<rparr>) \<in> set (eff m)
        \<and> Comlink_setup (launcher_params\<lparr>remote_ip := 167772162\<rparr>) \<in> set (eff m)
        \<and> receive_cb launcher_params = Some Launcher_rxmsg_callback
        \<and> valid m \<noteq> 0 \<and> nr_active m = 0 \<and> nr_ackd m = 0
        \<and> valid (launcher_rxmsg_callback 7 0 ''done'' 4 m) = 0
        \<and> nr_ackd (launcher_rxmsg_callback 7 0 ''done'' 4 m)
            \<noteq> nr_active (launcher_rxmsg_callback 7 0 ''done'' 4 m)
        \<and> filter is_teardown (eff (launcher_rxmsg_callback 7 0 ''done'' 4 m))
            = [Freed 0, Freed 1, Comlink_shutdown])"
  by (simp add: launcher_session_setup_def demo_env_refused_def demo_env_def demo_session_def
      launcher_session_def launcher_params_def upt_2 setup_host_def rx_valid rx_teardown
      is_teardown_def)

subsection \<open>Cleanup\<close>

text \<open>
  Claim C3. Cleanup is idempotent: a second call returns the state of the first, effects
  included; the call clears the validity flag; the first call on a valid session frees
  every non-NULL host entry once, in order, leaves every entry NULL and then shuts the
  transport down, and a call on a cleaned-up session changes nothing. After cleanup,
  whatever events follow (status reports, peer shutdowns, interrupts), the flag stays
  cleared and no further \<open>free\<close> or transport shutdown happens.
\<close>

theorem C3_cleanup_idempotent:
  "launcher_session_cleanup (launcher_session_cleanup m) = launcher_session_cleanup m
   \<and> valid (launcher_session_cleanup m) = 0
   \<and> eff (launcher_session_cleanup m) =
       (if valid m = 0 then eff m
        else eff m @ map Freed (filter (\<lambda>i. host_info m i \<noteq> None) [0..<host_count m])
               @ [Comlink_shutdown])
   \<and> host_info (launcher_session_cleanup m) =
       (if valid m = 0 then host_info m
        else (\<lambda>i. if i < host_count m then None else host_info m i))
   \<and> valid (fold (deliver env) evs (launcher_session_cleanup m)) = 0
   \<and> filter is_teardown (eff (fold (deliver env) evs (launcher_session_cleanup m)))
       = filter is_teardown (eff (launcher_session_cleanup m))"
  using events_invalid [OF cleanup_valid, of env evs m] cleanup_idem [of m] cleanup_valid [of m]
    cleanup_eff [of m] cleanup_host_info [of m]
  by simp

subsection \<open>Setup\<close>

lemma setup_host_fields:
  assumes "host_info m i = Some h" and "cl_params m = launcher_params\<lparr>remote_ip := x\<rparr>"
  shows "valid (setup_host env i h m) = valid m"
    and "nr_ackd (setup_host env i h m) = nr_ackd m"
    and "host_count (setup_host env i h m) = host_count m"
    and "host_info (setup_host env i h m) = host_info m"
    and "instances (setup_host env i h m) = instances m"
    and "exe_name (setup_host env i h m) = exe_name m"
    and "\<exists>y. cl_params (setup_host env i h m) = launcher_params\<lparr>remote_ip := y\<rparr>"
    and "nr_active (setup_host env i h m)
           = nr_active m + (if connected env (host_info m) i then 1 else 0)"
    and "skt_conns (setup_host env i h m)
           = (case attempt env (host_info m) i of
                None \<Rightarrow> skt_conns m | Some fd \<Rightarrow> (skt_conns m)(i := fd))"
    and "filter is_conn_failed (eff (setup_host env i h m))
           = filter is_conn_failed (eff m)
               @ (if refused env (host_info m) i
                  then [Print (Log_conn_failed (the (hostname_to_netaddr env h)))] else [])"
  using assms
  by (auto simp: setup_host_def Let_def attempt_def connected_def refused_def is_conn_failed_def
      split: option.splits)

lemma setup_loop_result:
  assumes "\<forall>i\<in>set is. host_info m i \<noteq> None"
    and "cl_params m = launcher_params\<lparr>remote_ip := x\<rparr>"
  shows "\<exists>m'. setup_loop env is m = Inr m'
     \<and> valid m' = valid m \<and> nr_ackd m' = nr_ackd m \<and> host_count m' = host_count m
     \<and> host_info m' = host_info m \<and> instances m' = instances m \<and> exe_name m' = exe_name m
     \<and> nr_active m' = nr_active m + int (length (filter (connected env (host_info m)) is))
     \<and> skt_conns m' =
         (\<lambda>i. if i \<in> set is
              then (case attempt env (host_info m) i of None \<Rightarrow> skt_conns m i | Some fd \<Rightarrow> fd)
              else skt_conns m i)
     \<and> length (filter is_conn_failed (eff m'))
         = length (filter is_conn_failed (eff m)) + length (filter (refused env (host_info m)) is)"
  using assms
proof (induction "is" arbitrary: m x)
  case Nil
  then show ?case by simp
next
  case (Cons a "is")
  from Cons.prems obtain h where h: "host_info m a = Some h"
    by auto
  let ?m1 = "setup_host env a h m"
  note f = setup_host_fields [OF h Cons.prems(2), of env]
  from f(7) obtain y where y: "cl_params ?m1 = launcher_params\<lparr>remote_ip := y\<rparr>"
    by blast
  have alloc: "\<forall>i\<in>set is. host_info ?m1 i \<noteq> None"
    using Cons.prems(1) by (simp add: f(4))
  from Cons.IH [OF alloc y] obtain m' where m': "setup_loop env is ?m1 = Inr m'"
    and keep: "valid m' = valid ?m1" "nr_ackd m' = nr_ackd ?m1" "host_count m' = host_count ?m1"
      "host_info m' = host_info ?m1" "instances m' = instances ?m1" "exe_name m' = exe_name ?m1"
    and act: "nr_active m' = nr_active ?m1 + int (length (filter (connected env (host_info ?m1)) is))"
    and skt: "skt_conns m' =
         (\<lambda>i. if i \<in> set is
              then (case attempt env (host_info ?m1) i of None \<Rightarrow> skt_conns ?m1 i | Some fd \<Rightarrow> fd)
              else skt_conns ?m1 i)"
    and logd: "length (filter is_conn_failed (eff m'))
         = length (filter is_conn_failed (eff ?m1)) + length (filter (refused env (host_info ?m1)) is)"
    by blast
  have run: "setup_loop env (a # is) m = Inr m'"
    by (simp add: h m')
  have skt': "skt_conns m' =
         (\<lambda>i. if i \<in> set (a # is)
              then (case attempt env (host_info m) i of None \<Rightarrow> skt_conns m i | Some fd \<Rightarrow> fd)
              else skt_conns m i)"
    unfolding skt f(4) f(9) by (auto simp: fun_eq_iff split: option.splits)
  show ?case
    unfolding run using keep act logd skt'
    by (simp add: f(1-6) f(8) f(10))
qed

lemma setup_host_prints:
  assumes "host_info m i = Some h" and "cl_params m = launcher_params\<lparr>remote_ip := x\<rparr>"
  shows "length (filter is_print (eff (setup_host env i h m)))
           = length (filter is_print (eff m)) + (if refused env (host_info m) i then 1 else 0)"
  using assms
  by (auto simp: setup_host_def Let_def attempt_def refused_def is_print_def
      split: option.splits)

lemma setup_loop_prints:
  assumes "setup_loop env is m = Inr m'"
    and "cl_params m = launcher_params\<lparr>remote_ip := x\<rparr>"
  shows "length (filter is_print (eff m'))
           = length (filter is_print (eff m)) + length (filter (refused env (host_info m)) is)"
  using assms
proof (induction "is" arbitrary: m x)
  case Nil
  then show ?case by simp
next
  case (Cons a "is")
  from Cons.prems(1) obtain h where h: "host_info m a = Some h"
    by (auto split: option.splits)
  let ?m1 = "setup_host env a h m"
  note f = setup_host_fields [OF h Cons.prems(2), of env]
  from f(7) obtain y where y: "cl_params ?m1 = launcher_params\<lparr>remote_ip := y\<rparr>"
    by blast
  from Cons.prems(1) have run: "setup_loop env is ?m1 = Inr m'"
    by (simp add: h)
  from Cons.IH [OF run y] show ?case
    by (simp add: f(4) setup_host_prints [OF h Cons.prems(2)])
qed

lemma length_filter_upt_le: "length (filter P [0..<n]) \<le> n"
  using length_filter_le [of P "[0..<n]"] by simp

text \<open>
  Claim C7, as the code has it. For a session whose host entries are all allocated (as
  \<open>parse_hostfile\<close> leaves them), setup returns 0 and \<open>nr_active\<close> is the number of hosts
  whose name resolved and whose connect returned a descriptor other than \<open>-1\<close>, at most
  the number of hosts. A host that does not resolve or connect is passed over and the
  loop goes on: every resolved host has its descriptor recorded. Each refused connection
  prints one message and nothing else is printed: a host whose name does not resolve
  is passed over in silence.
\<close>

theorem C7_setup_counts_connected:
  assumes "\<forall>i<host_count m. host_info m i \<noteq> None"
  shows "\<exists>m'. launcher_session_setup env m = Inr (0, m')
     \<and> nr_active m' = int (length (filter (connected env (host_info m)) [0..<host_count m]))
     \<and> nr_active m' \<le> int (host_count m)
     \<and> nr_ackd m' = 0 \<and> valid m' = 1
     \<and> host_count m' = host_count m \<and> host_info m' = host_info m
     \<and> (\<forall>i<host_count m.
           skt_conns m' i
             = (case attempt env (host_info m) i of None \<Rightarrow> skt_conns m i | Some fd \<Rightarrow> fd))
     \<and> length (filter is_conn_failed (eff m'))
         = length (filter is_conn_failed (eff m))
             + length (filter (refused env (host_info m)) [0..<host_count m])
     \<and> length (filter is_print (eff m'))
         = length (filter is_print (eff m))
             + length (filter (refused env (host_info m)) [0..<host_count m])"
proof -
  let ?m0 = "m\<lparr>nr_ackd := 0, nr_active := 0, valid := 1, cl_params := launcher_params\<rparr>"
  have alloc: "\<forall>i\<in>set [0..<host_count ?m0]. host_info ?m0 i \<noteq> None"
    using assms by simp
  have params: "cl_params ?m0 = launcher_params\<lparr>remote_ip := 0\<rparr>"
    by (simp add: launcher_params_def)
  from setup_loop_result [OF alloc params, of env]
  obtain m' where m': "setup_loop env [0..<host_count ?m0] ?m0 = Inr m'"
    and keep: "valid m' = valid ?m0" "nr_ackd m' = nr_ackd ?m0" "host_count m' = host_count ?m0"
      "host_info m' = host_info ?m0"
    and act: "nr_active m' = nr_active ?m0
        + int (length (filter (connected env (host_info ?m0)) [0..<host_count ?m0]))"
    and skt: "skt_conns m' =
         (\<lambda>i. if i \<in> set [0..<host_count ?m0]
              then (case attempt env (host_info ?m0) i of None \<Rightarrow> skt_conns ?m0 i | Some fd \<Rightarrow> fd)
              else skt_conns ?m0 i)"
    and logd: "length (filter is_conn_failed (eff m'))
         = length (filter is_conn_failed (eff ?m0))
             + length (filter (refused env (host_info ?m0)) [0..<host_count ?m0])"
    by blast
  have ret: "launcher_session_setup env m = Inr (0, m')"
    using m' by (simp add: launcher_session_setup_def Let_def)
  have bound: "nr_active m' \<le> int (host_count m)"
    using act length_filter_upt_le [of "connected env (host_info m)" "host_count m"] by simp
  have logp: "length (filter is_print (eff m'))
         = length (filter is_print (eff m))
             + length (filter (refused env (host_info m)) [0..<host_count m])"
    using setup_loop_prints [OF m' params] by simp
  show ?thesis
    using ret keep act bound logd logp
    by (intro exI [of _ m']) (simp add: skt split: option.splits)
qed

text \<open>Two hosts, the first connecting on descriptor 7 and the second refused with one
  message; and the same two hosts with no name resolving, passed over without any.\<close>

theorem C7_setup_counts_connected_witness:
  "(\<exists>m'. launcher_session_setup demo_env demo_session = Inr (0, m')
     \<and> nr_active m' = 1 \<and> host_count m' = 2
     \<and> skt_conns m' 0 = 7 \<and> skt_conns m' 1 = - 1
     \<and> length (filter is_conn_failed (eff m')) = 1
     \<and> length (filter is_print (eff m')) = 1)
   \<and> (\<exists>m'. launcher_session_setup demo_env_down demo_session = Inr (0, m')
     \<and> nr_active m' = 0 \<and> host_count m' = 2
     \<and> length (filter is_print (eff m')) = 0)"
proof -
  have alloc: "\<forall>i<host_count demo_session. host_info demo_session i \<noteq> None"
    by (auto simp: demo_session_def launcher_session_def numeral_2_eq_2 less_Suc_eq)
  have hosts: "host_count demo_session = 2" "eff demo_session = []"
    by (simp_all add: demo_session_def launcher_session_def)
  have a0: "attempt demo_env (host_info demo_session) 0 = Some 7"
    by (simp add: attempt_def demo_env_def demo_session_def launcher_session_def)
  have a1: "attempt demo_env (host_info demo_session) (Suc 0) = Some (- 1)"
    by (simp add: attempt_def demo_env_def demo_session_def launcher_session_def)
  have down: "attempt demo_env_down hosts i = None" for hosts i
    by (simp add: attempt_def demo_env_down_def split: option.splits)
  from C7_setup_counts_connected [OF alloc, of demo_env] obtain m'
    where "launcher_session_setup demo_env demo_session = Inr (0, m')
     \<and> nr_active m' = int (length (filter (connected demo_env (host_info demo_session))
                                  [0..<host_count demo_session]))
     \<and> nr_active m' \<le> int (host_count demo_session)
     \<and> nr_ackd m' = 0 \<and> valid m' = 1
     \<and> host_count m' = host_count demo_session \<and> host_info m' = host_info demo_session
     \<and> (\<forall>i<host_count demo_session.
           skt_conns m' i
             = (case attempt demo_env (host_info demo_session) i of
                  None \<Rightarrow> skt_conns demo_session i | Some fd \<Rightarrow> fd))
     \<and> length (filter is_conn_failed (eff m'))
         = length (filter is_conn_failed (eff demo_session))
             + length (filter (refused demo_env (host_info demo_session))
                         [0..<host_count demo_session])
     \<and> length (filter is_print (eff m'))
         = length (filter is_print (eff demo_session))
             + length (filter (refused demo_env (host_info demo_session))
                         [0..<host_count demo_session])"
    by blast
  then have up: "launcher_session_setup demo_env demo_session = Inr (0, m')
     \<and> nr_active m' = 1 \<and> host_count m' = 2
     \<and> skt_conns m' 0 = 7 \<and> skt_conns m' (Suc 0) = - 1
     \<and> length (filter is_conn_failed (eff m')) = 1
     \<and> length (filter is_print (eff m')) = 1"
    by (simp add: hosts upt_2 connected_def refused_def a0 a1)
  from C7_setup_counts_connected [OF alloc, of demo_env_down] obtain m''
    where "launcher_session_setup demo_env_down demo_session = Inr (0, m'')
     \<and> nr_active m'' = int (length (filter (connected demo_env_down (host_info demo_session))
                                  [0..<host_count demo_session]))
     \<and> host_count m'' = host_count demo_session
     \<and> length (filter is_print (eff m''))
         = length (filter is_print (eff demo_session))
             + length (filter (refused demo_env_down (host_info demo_session))
                         [0..<host_count demo_session])"
    by blast
  then have silent: "launcher_session_setup demo_env_down demo_session = Inr (0, m'')
     \<and> nr_active m'' = 0 \<and> host_count m'' = 2
     \<and> length (filter is_print (eff m'')) = 0"
    by (simp add: hosts connected_def refused_def down)
  from up silent show ?thesis
    by (intro conjI exI [of _ m'] exI [of _ m'']) simp_all
qed

text \<open>
  Claim C7 as stated fails for a name that does not resolve: with no name resolving,
  setup passes both hosts over and returns 0 with nothing printed and no effect at all.
\<close>

theorem C7_counterexample:
  "(case launcher_session_setup demo_env_down demo_session of
      Inl s \<Rightarrow> False
    | Inr (r, m) \<Rightarrow>
        r = 0 \<and> host_count m = 2
        \<and> hostname_to_netaddr demo_env_down (''alpha'' @ [CHR 0x0A]) = None
        \<and> hostname_to_netaddr demo_env_down (''beta'' @ [CHR 0x0A]) = None
        \<and> nr_active m = 0
        \<and> eff demo_session = [] \<and> eff m = [])"
  by (simp add: launcher_session_setup_def demo_env_down_def demo_env_def demo_session_def
      launcher_session_def upt_2 setup_host_def)

subsection \<open>Dispatch and events\<close>

lemma sent_messages_append: "sent_messages (xs @ ys) = sent_messages xs @ sent_messages ys"
  by (induction xs rule: sent_messages.induct) simp_all

lemma ctrlmsg_fields [simp]:
  "valid (snd (launcher_send_ctrlmsg env fd msg m)) = valid m"
  "nr_ackd (snd (launcher_send_ctrlmsg env fd msg m)) = nr_ackd m"
  "nr_active (snd (launcher_send_ctrlmsg env fd msg m)) = nr_active m"
  "host_count (snd (launcher_send_ctrlmsg env fd msg m)) = host_count m"
  "host_info (snd (launcher_send_ctrlmsg env fd msg m)) = host_info m"
  "instances (snd (launcher_send_ctrlmsg env fd msg m)) = instances m"
  "exe_name (snd (launcher_send_ctrlmsg env fd msg m)) = exe_name m"
  "eff (snd (launcher_send_ctrlmsg env fd msg m)) =
     eff m @ [Sent fd (fill_header CTRL_MESSAGE (sizeof_char_ptr env)) (C_string msg)
                (sizeof_char_ptr env)]"
  by (simp_all add: launcher_send_ctrlmsg_def Let_def)

lemma start_host_fields:
  "valid (snd (start_host env i h m)) = valid m"
  "nr_ackd (snd (start_host env i h m)) = nr_ackd m"
  "nr_active (snd (start_host env i h m)) = nr_active m"
  "host_count (snd (start_host env i h m)) = host_count m"
  "host_info (snd (start_host env i h m)) = host_info m"
  "instances (snd (start_host env i h m)) = instances m"
  "exe_name (snd (start_host env i h m)) = exe_name m"
  "sent_messages (eff (snd (start_host env i h m))) =
     sent_messages (eff m)
       @ [(int i, PROC_INSTANCES, Instances_obj (instances m)),
          (int i, EXEC_FILENAME, C_string (exe_name m)),
          (int i, CTRL_MESSAGE, C_string ''start'')]"
  "filter is_teardown (eff (snd (start_host env i h m))) = filter is_teardown (eff m)"
  by (simp_all add: start_host_def Let_def split_beta sent_messages_append fill_header_def
      is_teardown_def)

lemma start_loop_result:
  assumes "\<forall>i\<in>set is. host_info m i \<noteq> None"
  shows "\<exists>r' m'. start_loop env is (r, m) = Inr (r', m')
     \<and> valid m' = valid m \<and> nr_ackd m' = nr_ackd m \<and> nr_active m' = nr_active m
     \<and> host_count m' = host_count m \<and> host_info m' = host_info m
     \<and> sent_messages (eff m') =
         sent_messages (eff m)
           @ concat (map (\<lambda>i. [(int i, PROC_INSTANCES, Instances_obj (instances m)),
                               (int i, EXEC_FILENAME, C_string (exe_name m)),
                               (int i, CTRL_MESSAGE, C_string ''start'')]) is)
     \<and> filter is_teardown (eff m') = filter is_teardown (eff m)"
  using assms
proof (induction "is" arbitrary: r m)
  case Nil
  then show ?case by simp
next
  case (Cons a "is")
  from Cons.prems obtain h where h: "host_info m a = Some h"
    by auto
  obtain r1 m1 where step: "start_host env a h m = (r1, m1)"
    by (cases "start_host env a h m")
  note f = start_host_fields [of env a h m, unfolded step snd_conv]
  have alloc: "\<forall>i\<in>set is. host_info m1 i \<noteq> None"
    using Cons.prems by (simp add: f(5))
  from Cons.IH [OF alloc, of r1] obtain r' m' where
    run: "start_loop env is (r1, m1) = Inr (r', m')"
    and keep: "valid m' = valid m1" "nr_ackd m' = nr_ackd m1" "nr_active m' = nr_active m1"
      "host_count m' = host_count m1" "host_info m' = host_info m1"
    and sent: "sent_messages (eff m') =
         sent_messages (eff m1)
           @ concat (map (\<lambda>i. [(int i, PROC_INSTANCES, Instances_obj (instances m1)),
                               (int i, EXEC_FILENAME, C_string (exe_name m1)),
                               (int i, CTRL_MESSAGE, C_string ''start'')]) is)"
    and tear: "filter is_teardown (eff m') = filter is_teardown (eff m1)"
    by blast
  have run': "start_loop env (a # is) (r, m) = Inr (r', m')"
    by (simp add: h step run)
  show ?case
    unfolding run' using keep sent tear by (simp add: f)
qed

lemma shutdown_cb_fields [simp]:
  "valid (launcher_shutdown_callback fd m) = valid m"
  "nr_ackd (launcher_shutdown_callback fd m) = nr_ackd m"
  "nr_active (launcher_shutdown_callback fd m) = nr_active m"
  "host_count (launcher_shutdown_callback fd m) = host_count m"
  by (simp_all add: launcher_shutdown_callback_def Let_def)

lemma signal_handler_fields [simp]:
  "valid (launcher_signal_handler env m) = 0"
  "nr_ackd (launcher_signal_handler env m) = nr_ackd m"
  "nr_active (launcher_signal_handler env m) = nr_active m"
  "host_count (launcher_signal_handler env m) = host_count m"
  by (simp_all add: launcher_signal_handler_def cleanup_valid)

lemma deliver_counters [simp]:
  "nr_active (deliver env e m) = nr_active m"
  "host_count (deliver env e m) = host_count m"
  by (cases e; simp)+

lemma deliver_ack_bound: "ack_bound m \<Longrightarrow> ack_bound (deliver env e m)"
  by (cases e) (auto simp: ack_bound_def rx_valid)

lemma events_counters [simp]:
  "nr_active (fold (deliver env) evs m) = nr_active m"
  "host_count (fold (deliver env) evs m) = host_count m"
  by (induction evs arbitrary: m; simp)+

lemma events_ack_bound: "ack_bound m \<Longrightarrow> ack_bound (fold (deliver env) evs m)"
  by (induction evs arbitrary: m) (simp_all add: deliver_ack_bound)

lemma start_result:
  assumes "\<forall>i<host_count m. host_info m i \<noteq> None"
  shows "\<exists>r m1. start_loop env [0..<host_count m] (0, m) = Inr (r, m1)
     \<and> launcher_session_start env evs m = Inr (r, comlink_client_start env evs m1)
     \<and> valid m1 = valid m \<and> nr_ackd m1 = nr_ackd m \<and> nr_active m1 = nr_active m
     \<and> host_count m1 = host_count m \<and> host_info m1 = host_info m
     \<and> sent_messages (eff m1) =
         sent_messages (eff m)
           @ concat (map (\<lambda>i. [(int i, PROC_INSTANCES, Instances_obj (instances m)),
                               (int i, EXEC_FILENAME, C_string (exe_name m)),
                               (int i, CTRL_MESSAGE, C_string ''start'')]) [0..<host_count m])
     \<and> filter is_teardown (eff m1) = filter is_teardown (eff m)"
proof -
  have alloc: "\<forall>i\<in>set [0..<host_count m]. host_info m i \<noteq> None"
    using assms by simp
  from start_loop_result [OF alloc, of env 0] obtain r m1 where
    run: "start_loop env [0..<host_count m] (0, m) = Inr (r, m1)"
    and rest: "valid m1 = valid m \<and> nr_ackd m1 = nr_ackd m \<and> nr_active m1 = nr_active m
     \<and> host_count m1 = host_count m \<and> host_info m1 = host_info m
     \<and> sent_messages (eff m1) =
         sent_messages (eff m)
           @ concat (map (\<lambda>i. [(int i, PROC_INSTANCES, Instances_obj (instances m)),
                               (int i, EXEC_FILENAME, C_string (exe_name m)),
                               (int i, CTRL_MESSAGE, C_string ''start'')]) [0..<host_count m])
     \<and> filter is_teardown (eff m1) = filter is_teardown (eff m)"
    by blast
  have "launcher_session_start env evs m = Inr (r, comlink_client_start env evs m1)"
    by (simp add: launcher_session_start_def run)
  with run rest show ?thesis
    by blast
qed

lemma start_ack_bound:
  assumes "launcher_session_start env evs m = Inr (r, m')" and "ack_bound m"
  shows "ack_bound m'"
proof -
  have keep: "start_loop env is (r0, m0) = Inr (r1, m1) \<Longrightarrow>
      valid m1 = valid m0 \<and> nr_ackd m1 = nr_ackd m0 \<and> nr_active m1 = nr_active m0"
    for "is" r0 m0 r1 m1
  proof (induction "is" arbitrary: r0 m0)
    case Nil
    then show ?case by simp
  next
    case (Cons a "is")
    from Cons.prems obtain h where h: "host_info m0 a = Some h"
      by (auto split: option.splits)
    obtain r2 m2 where step: "start_host env a h m0 = (r2, m2)"
      by (cases "start_host env a h m0")
    note f = start_host_fields [of env a h m0, unfolded step snd_conv]
    from Cons.prems have "start_loop env is (r2, m2) = Inr (r1, m1)"
      by (simp add: h step)
    from Cons.IH [OF this] show ?case
      by (simp add: f)
  qed
  from assms(1) obtain m1 where loop: "start_loop env [0..<host_count m] (0, m) = Inr (r, m1)"
    and m': "m' = comlink_client_start env evs m1"
    by (auto simp: launcher_session_start_def split: sum.splits)
  from keep [OF loop] assms(2) have "ack_bound (emit Comlink_start m1)"
    by (simp add: ack_bound_def)
  then show ?thesis
    unfolding m' comlink_client_start_def by (rule events_ack_bound)
qed

lemma setup_host_mono:
  "nr_ackd (setup_host env i h m) = nr_ackd m"
  "valid (setup_host env i h m) = valid m"
  "nr_active m \<le> nr_active (setup_host env i h m)"
  by (simp_all add: setup_host_def Let_def split: option.splits)

lemma setup_loop_mono:
  "setup_loop env is m = Inr m' \<Longrightarrow>
     nr_ackd m' = nr_ackd m \<and> valid m' = valid m \<and> nr_active m \<le> nr_active m'"
proof (induction "is" arbitrary: m)
  case Nil
  then show ?case by simp
next
  case (Cons a "is")
  from Cons.prems obtain h where h: "host_info m a = Some h"
    by (auto split: option.splits)
  from Cons.prems have "setup_loop env is (setup_host env a h m) = Inr m'"
    by (simp add: h)
  from Cons.IH [OF this] setup_host_mono(3) [of m env a h] show ?case
    by (simp add: setup_host_mono(1,2))
qed

lemma setup_returns_0:
  "launcher_session_setup env m = Inr (r, m') \<Longrightarrow> r = 0"
  by (auto simp: launcher_session_setup_def Let_def split: sum.splits)

lemma setup_ack_bound:
  assumes "launcher_session_setup env m = Inr (r, m')"
  shows "ack_bound m'"
proof -
  let ?m0 = "m\<lparr>nr_ackd := 0, nr_active := 0, valid := 1, cl_params := launcher_params\<rparr>"
  from assms have "setup_loop env [0..<host_count ?m0] ?m0 = Inr m'"
    by (auto simp: launcher_session_setup_def Let_def split: sum.splits)
  from setup_loop_mono [OF this] show ?thesis
    by (simp add: ack_bound_def)
qed

lemma apply_op_ack_bound:
  assumes "apply_op env x m = Inr m'" and "ack_bound m"
  shows "ack_bound m'"
proof (cases x)
  case Op_setup
  with assms(1) show ?thesis
    by (auto split: sum.splits dest: setup_ack_bound)
next
  case (Op_start evs)
  with assms show ?thesis
    by (auto split: sum.splits dest: start_ack_bound)
next
  case Op_cleanup
  with assms(1) show ?thesis
    by (auto simp: ack_bound_def cleanup_valid)
next
  case (Op_event e)
  with assms show ?thesis
    by (auto simp: deliver_ack_bound)
qed

lemma run_ops_ack_bound:
  "run_ops env ops m = Inr m' \<Longrightarrow> ack_bound m \<Longrightarrow> ack_bound m'"
proof (induction ops arbitrary: m)
  case Nil
  then show ?case by simp
next
  case (Cons x xs)
  from Cons.prems(1) obtain m1 where one: "apply_op env x m = Inr m1"
    and rest: "run_ops env xs m1 = Inr m'"
    by (auto split: sum.splits)
  from Cons.IH [OF rest apply_op_ack_bound [OF one Cons.prems(2)]] show ?case .
qed

lemma rx_invalid:
  assumes "valid m = 0"
  shows "launcher_rxmsg_callback fd t b l m
           = m\<lparr>nr_ackd := nr_ackd m + 1,
               eff := eff m @ Print (Log_report b)
                        # (if nr_active m \<le> nr_ackd m + 1 then [Print Log_ack_all] else [])\<rparr>"
  using assms by (simp add: launcher_rxmsg_callback_def Let_def cleanup_invalid emit_def)

lemmas demo_defs = demo_env_def demo_session_def launcher_session_def launcher_params_def
  COMLINK_PORT_def COMLINK_BUF_SIZE_def

lemmas run_defs = launcher_session_setup_def setup_host_def launcher_session_start_def
  start_host_def comlink_sendto_server_def launcher_send_ctrlmsg_def fill_header_def
  comlink_client_start_def launcher_rxmsg_callback_def launcher_session_cleanup_def
  cleanup_entry_def emit_def Let_def upt_2

text \<open>
  Claim C6, as the code has it. For a session whose host entries are all allocated,
  dispatch returns and sends, for every host entry in registry order, connected or not,
  exactly three messages: the instance count, the executable name, the control command
  \<open>start\<close>, in this order; the destination given to the transport is the position of
  the host in the registry.
\<close>

theorem C6_dispatch_three_per_host:
  assumes "\<forall>i<host_count m. host_info m i \<noteq> None"
  shows "\<exists>r m'. launcher_session_start env [] m = Inr (r, m')
     \<and> sent_messages (eff m') =
         sent_messages (eff m)
           @ concat (map (\<lambda>i. [(int i, PROC_INSTANCES, Instances_obj (instances m)),
                               (int i, EXEC_FILENAME, C_string (exe_name m)),
                               (int i, CTRL_MESSAGE, C_string ''start'')]) [0..<host_count m])"
proof -
  from start_result [OF assms, of env "[]"] obtain r m1 where
    ret: "launcher_session_start env [] m = Inr (r, comlink_client_start env [] m1)"
    and sent: "sent_messages (eff m1) =
         sent_messages (eff m)
           @ concat (map (\<lambda>i. [(int i, PROC_INSTANCES, Instances_obj (instances m)),
                               (int i, EXEC_FILENAME, C_string (exe_name m)),
                               (int i, CTRL_MESSAGE, C_string ''start'')]) [0..<host_count m])"
    by blast
  have "sent_messages (eff (comlink_client_start env [] m1)) = sent_messages (eff m1)"
    by (simp add: comlink_client_start_def sent_messages_append)
  with ret sent show ?thesis
    by simp
qed

text \<open>The two hosts of the example: six messages, three to position 0, three to 1.\<close>

theorem C6_dispatch_three_per_host_witness:
  "\<exists>r m'. launcher_session_start demo_env [] demo_session = Inr (r, m')
     \<and> sent_messages (eff m') =
         [(0, PROC_INSTANCES, Instances_obj 4), (0, EXEC_FILENAME, C_string ''./job''),
          (0, CTRL_MESSAGE, C_string ''start''),
          (1, PROC_INSTANCES, Instances_obj 4), (1, EXEC_FILENAME, C_string ''./job''),
          (1, CTRL_MESSAGE, C_string ''start'')]"
proof -
  have alloc: "\<forall>i<host_count demo_session. host_info demo_session i \<noteq> None"
    by (auto simp: demo_session_def launcher_session_def numeral_2_eq_2 less_Suc_eq)
  show ?thesis
    using C6_dispatch_three_per_host [OF alloc, of demo_env]
    by (simp add: demo_session_def launcher_session_def upt_2)
qed

text \<open>
  Claim C6 as stated fails: the first host is connected on descriptor 7 and the second
  is not connected, yet both get three messages, addressed to 0 and 1.
\<close>

theorem C6_counterexample:
  "(case run_ops demo_env [Op_setup] demo_session of
      Inl s \<Rightarrow> False
    | Inr m \<Rightarrow>
        (case launcher_session_start demo_env [] m of
           Inl s \<Rightarrow> False
         | Inr (r, m') \<Rightarrow>
             skt_conns m 0 = 7 \<and> skt_conns m 1 = - 1
             \<and> map fst (sent_messages (eff m')) = [0, 0, 0, 1, 1, 1]))"
  by (simp add: demo_defs run_defs)

text \<open>
  Claim C2 at a failing input. The first host is connected and the send of its start
  command fails; the message that the host will be ignored is printed, and the session
  still expects one acknowledgment.
\<close>

theorem C2_start_failure_still_counted:
  "(case run_ops demo_env [Op_setup] demo_session of
      Inl s \<Rightarrow> False
    | Inr m \<Rightarrow>
        (case launcher_session_start demo_env [] m of
           Inl s \<Rightarrow> False
         | Inr (r, m') \<Rightarrow>
             nr_active m = 1 \<and> skt_conns m 0 = 7
             \<and> Print Log_start_failed \<in> set (eff m')
             \<and> nr_active m' = 1 \<and> nr_ackd m' = 0 \<and> valid m' = 1))"
  by (simp add: demo_defs run_defs)

text \<open>
  Claim C5 at a failing input. With pointers of eight bytes the control command \<open>start\<close>
  goes out with length 8 in its header, for a string of five characters; whatever the
  platform, the length is the size of a pointer.
\<close>

theorem C5_ctrlmsg_length_is_pointer_size:
  "eff (snd (launcher_send_ctrlmsg demo_env 0 ''start'' demo_session))
     = [Sent 0 \<lparr>hdr_type = CTRL_MESSAGE, hdr_len = 8\<rparr> (C_string ''start'') 8]
   \<and> int (length ''start'') = 5
   \<and> hdr_len (fill_header CTRL_MESSAGE (sizeof_char_ptr env)) = sizeof_char_ptr env"
  by (simp add: demo_defs run_defs)

subsection \<open>The bound on acknowledgments\<close>

text \<open>
  Claim C4, as the code has it. In every state reached from a session that is not yet
  valid by setup, dispatch, events and cleanup: while the session is valid,
  \<open>nr_ackd \<le> nr_active\<close>; once it is cleaned up, a status report still adds one to
  \<open>nr_ackd\<close>, and changes neither \<open>nr_active\<close>, nor the validity flag, nor the host
  entries, and frees nothing.
\<close>

theorem C4_ack_bound_while_valid:
  assumes "valid m0 = 0" and "run_ops env ops m0 = Inr m"
  shows "(valid m \<noteq> 0 \<longrightarrow> nr_ackd m \<le> nr_active m)
       \<and> (valid m = 0 \<longrightarrow>
            nr_ackd (launcher_rxmsg_callback fd t b l m) = nr_ackd m + 1
          \<and> nr_active (launcher_rxmsg_callback fd t b l m) = nr_active m
          \<and> valid (launcher_rxmsg_callback fd t b l m) = 0
          \<and> host_info (launcher_rxmsg_callback fd t b l m) = host_info m
          \<and> filter is_teardown (eff (launcher_rxmsg_callback fd t b l m))
              = filter is_teardown (eff m))"
proof -
  have "ack_bound m0"
    using assms(1) by (simp add: ack_bound_def)
  from run_ops_ack_bound [OF assms(2) this] have bound: "valid m \<noteq> 0 \<longrightarrow> nr_ackd m \<le> nr_active m"
    by (auto simp: ack_bound_def)
  have late: "valid m = 0 \<longrightarrow>
            nr_ackd (launcher_rxmsg_callback fd t b l m) = nr_ackd m + 1
          \<and> nr_active (launcher_rxmsg_callback fd t b l m) = nr_active m
          \<and> valid (launcher_rxmsg_callback fd t b l m) = 0
          \<and> host_info (launcher_rxmsg_callback fd t b l m) = host_info m
          \<and> filter is_teardown (eff (launcher_rxmsg_callback fd t b l m))
              = filter is_teardown (eff m)"
    by (simp add: rx_invalid is_teardown_def)
  from bound late show ?thesis
    by blast
qed

text \<open>The example after setup and dispatch (valid, no report yet), and after the one
  expected report and the final cleanup.\<close>

theorem C4_ack_bound_while_valid_witness:
  "(\<exists>m. run_ops demo_env [Op_setup, Op_start []] demo_session = Inr m
        \<and> valid m \<noteq> 0 \<and> nr_ackd m \<le> nr_active m)
   \<and> (\<exists>m. run_ops demo_env [Op_setup, Op_start [Rx 7 0 ''done'' 4], Op_cleanup] demo_session
             = Inr m
        \<and> valid m = 0
        \<and> nr_ackd (launcher_rxmsg_callback 7 0 ''late'' 4 m) = nr_ackd m + 1
        \<and> valid (launcher_rxmsg_callback 7 0 ''late'' 4 m) = 0)"
proof -
  have fresh: "valid demo_session = 0"
    by (simp add: demo_defs)
  obtain m1 where m1: "run_ops demo_env [Op_setup, Op_start []] demo_session = Inr m1"
    and v1: "valid m1 \<noteq> 0"
    by (simp add: demo_defs run_defs)
  obtain m2 where
    m2: "run_ops demo_env [Op_setup, Op_start [Rx 7 0 ''done'' 4], Op_cleanup] demo_session
           = Inr m2"
    and v2: "valid m2 = 0"
    by (simp add: demo_defs run_defs)
  show ?thesis
    using C4_ack_bound_while_valid [OF fresh m1] v1
      C4_ack_bound_while_valid [OF fresh m2, of 7 0 "''late''" 4] v2 m1 m2
    by simp
qed

text \<open>
  Claim C4 as stated fails in its second half: after cleanup a late report moves
  \<open>nr_ackd\<close> from 1 to 2.
\<close>

theorem C4_counterexample:
  "(case run_ops demo_env [Op_setup, Op_start [Rx 7 0 ''done'' 4], Op_cleanup] demo_session of
      Inl s \<Rightarrow> False
    | Inr m \<Rightarrow>
        valid m = 0 \<and> nr_ackd m = 1
        \<and> nr_ackd (launcher_rxmsg_callback 7 0 ''late'' 4 m) = 2)"
  by (simp add: demo_defs run_defs)

subsection \<open>The host registry\<close>

lemma entries_stored_iff:
  "entries_stored n m \<longleftrightarrow> (\<forall>i<host_count m. \<exists>h. host_info m i = Some h \<and> length h < n)"
  unfolding entries_stored_def list_all_iff
  by (rule iffI; clarsimp split: option.splits; fastforce)

lemma fgets_chars_length: "length (fgets_chars n cs) \<le> n"
  by (induction n cs rule: fgets_chars.induct) auto


lemma strcpy_length: "length (strcpy s) \<le> length s"
  by (simp add: strcpy_def length_takeWhile_le)






lemma alloc_past_array:
  "host_capacity env \<le> idx \<Longrightarrow> alloc_host_entry env k idx m = Inl Store_past_array"
  by (simp add: alloc_host_entry_def)

lemma hostfile_entry_Inr:
  assumes "hostfile_entry env k buf m = Inr m1"
  shows "host_count m < host_capacity env"
    and "host_count m1 = (if malloc_ok env k then host_count m + 1 else host_count m)"
    and "host_info m1
           = (if malloc_ok env k then (host_info m)(host_count m \<mapsto> strcpy buf)
              else (host_info m)(host_count m := None))"
    and "valid m1 = valid m" and "instances m1 = instances m"
    and "exe_name m1 = exe_name m" and "host_file m1 = host_file m"
  using assms
  by (auto simp: hostfile_entry_def alloc_host_entry_def Let_def split: if_splits)


lemma hostfile_entry_Inl:
  "hostfile_entry env k buf m = Inl s \<Longrightarrow> s = Store_past_array"
  by (auto simp: hostfile_entry_def alloc_host_entry_def Let_def split: if_splits)

lemma hostfile_entry_stored:
  assumes "hostfile_entry env k buf m = Inr m1" and "entries_stored n m" and "length buf < n"
  shows "entries_stored n m1"
  using assms(2,3) strcpy_length [of buf]
  by (auto simp: entries_stored_iff hostfile_entry_Inr [OF assms(1)] less_Suc_eq)

lemma hostfile_loop_step:
  assumes "\<not> max_hostname_len env \<le> 1" and "rest \<noteq> []"
  shows "hostfile_loop env k rest m =
     (case hostfile_entry env k (fgets_chars (max_hostname_len env - 1) rest) m of
        Inl s \<Rightarrow> Inl s
      | Inr m1 \<Rightarrow>
          hostfile_loop env (Suc k)
            (drop (length (fgets_chars (max_hostname_len env - 1) rest)) rest) m1)"
  using assms by (subst hostfile_loop.simps) simp

lemma hostfile_loop_stored:
  "hostfile_loop env k rest m = Inr m' \<Longrightarrow> entries_stored (max_hostname_len env) m \<Longrightarrow>
     entries_stored (max_hostname_len env) m'
     \<and> valid m' = valid m \<and> instances m' = instances m \<and> exe_name m' = exe_name m
     \<and> host_file m' = host_file m"
proof (induction env k rest m rule: hostfile_loop.induct)
  case (1 env k rest m)
  show ?case
  proof (cases "max_hostname_len env \<le> 1 \<or> rest = []")
    case True
    with "1.prems" show ?thesis
      by (auto simp: hostfile_loop.simps [of env k rest m] split: if_splits)
  next
    case False
    let ?buf = "fgets_chars (max_hostname_len env - 1) rest"
    from False have big: "\<not> max_hostname_len env \<le> 1" and more: "rest \<noteq> []"
      by auto
    from "1.prems"(1) obtain m1 where entry: "hostfile_entry env k ?buf m = Inr m1"
      and run: "hostfile_loop env (Suc k) (drop (length ?buf) rest) m1 = Inr m'"
      by (auto simp: hostfile_loop_step [OF big more] split: sum.splits)
    have "length ?buf < max_hostname_len env"
      using fgets_chars_length [of "max_hostname_len env - 1" rest] big by simp
    with entry "1.prems"(2) have "entries_stored (max_hostname_len env) m1"
      by (rule hostfile_entry_stored)
    from "1.IH" [OF big more entry run this] show ?thesis
      by (simp add: hostfile_entry_Inr [OF entry])
  qed
qed




lemma fgets_chars_numeral:
  "fgets_chars (numeral v) [] = []"
  "fgets_chars (numeral v) (c # cs)
     = (if c = CHR 0x0A then [c] else c # fgets_chars (pred_numeral v) cs)"
  by (simp_all add: numeral_eq_Suc)

lemma hostfile_loop_Nil:
  "2 \<le> max_hostname_len env \<Longrightarrow> hostfile_loop env k [] m = Inr m"
  by (subst hostfile_loop.simps) simp

lemma hostfile_loop_Cons:
  "2 \<le> max_hostname_len env \<Longrightarrow>
   hostfile_loop env k (c # cs) m =
     (case hostfile_entry env k (fgets_chars (max_hostname_len env - 1) (c # cs)) m of
        Inl s \<Rightarrow> Inl s
      | Inr m1 \<Rightarrow>
          hostfile_loop env (Suc k)
            (drop (length (fgets_chars (max_hostname_len env - 1) (c # cs))) (c # cs)) m1)"
  by (subst hostfile_loop.simps) simp



lemma hostfile_loop_Inl:
  "hostfile_loop env k rest m = Inl s \<Longrightarrow> s = No_progress \<or> s = Store_past_array"
proof (induction env k rest m rule: hostfile_loop.induct)
  case (1 env k rest m)
  show ?case
  proof (cases "max_hostname_len env \<le> 1 \<or> rest = []")
    case True
    with "1.prems" show ?thesis
      by (auto simp: hostfile_loop.simps [of env k rest m] split: if_splits)
  next
    case False
    let ?buf = "fgets_chars (max_hostname_len env - 1) rest"
    from False have big: "\<not> max_hostname_len env \<le> 1" and more: "rest \<noteq> []"
      by auto
    show ?thesis
    proof (cases "hostfile_entry env k ?buf m")
      case (Inl s')
      with "1.prems" have "s = s'"
        by (simp add: hostfile_loop_step [OF big more])
      with Inl show ?thesis
        by (auto dest: hostfile_entry_Inl)
    next
      case (Inr m1)
      with "1.prems" have "hostfile_loop env (Suc k) (drop (length ?buf) rest) m1 = Inl s"
        by (simp add: hostfile_loop_step [OF big more])
      from "1.IH" [OF big more Inr this] show ?thesis .
    qed
  qed
qed

lemma parse_hostfile_allocated:
  assumes "parse_hostfile env f m = Inr (n, m')"
  shows "n = int (host_count m') \<and> (\<forall>i<host_count m'. host_info m' i \<noteq> None)"
proof -
  from assms obtain bytes where run: "hostfile_loop env 0 bytes (m\<lparr>host_count := 0\<rparr>) = Inr m'"
    and n: "n = int (host_count m')"
    by (auto simp: parse_hostfile_def split: option.splits sum.splits)
  have "entries_stored (max_hostname_len env) (m\<lparr>host_count := 0\<rparr>)"
    by (simp add: entries_stored_def)
  from hostfile_loop_stored [OF run this] n show ?thesis
    by (auto simp: entries_stored_iff)
qed




subsection \<open>The command line\<close>

lemmas cmdline_defs = parse_cmdline_def MAX_CMD_ARGS_def MAX_INSTANCES_def strncmp_is0_def
  atoi_def isspace_def isdigit_def Let_def emit_def

text \<open>
  Claim C8 at failing inputs. The instance counts 1000, 0 and -5 are all accepted:
  \<open>parse_cmdline\<close> returns 0 and the session holds the count as given.
\<close>

theorem C8_instances_not_validated:
  "fst (parse_cmdline [''launcher'', ''-np'', ''1000'', ''-hostfile'', ''hosts'', ''./job'']
          launcher_session) = 0
   \<and> instances (snd (parse_cmdline
          [''launcher'', ''-np'', ''1000'', ''-hostfile'', ''hosts'', ''./job'']
          launcher_session)) = 1000
   \<and> fst (parse_cmdline [''launcher'', ''-np'', ''0'', ''-hostfile'', ''hosts'', ''./job'']
          launcher_session) = 0
   \<and> instances (snd (parse_cmdline
          [''launcher'', ''-np'', ''0'', ''-hostfile'', ''hosts'', ''./job'']
          launcher_session)) = 0
   \<and> fst (parse_cmdline [''launcher'', ''-np'', ''-5'', ''-hostfile'', ''hosts'', ''./job'']
          launcher_session) = 0
   \<and> instances (snd (parse_cmdline
          [''launcher'', ''-np'', ''-5'', ''-hostfile'', ''hosts'', ''./job'']
          launcher_session)) = - 5"
  by (simp add: cmdline_defs launcher_session_def)

subsection \<open>The entry point\<close>

lemma setup_loop_Inl: "setup_loop env is m = Inl s \<Longrightarrow> s = Null_dereference"
  by (induction "is" arbitrary: m) (auto split: option.splits)

lemma start_loop_Inl: "start_loop env is rm = Inl s \<Longrightarrow> s = Null_dereference"
  by (induction "is" arbitrary: rm) (auto split: option.splits)

lemma setup_total:
  assumes "\<forall>i<host_count m. host_info m i \<noteq> None"
  shows "\<exists>m'. launcher_session_setup env m = Inr (0, m')
     \<and> host_count m' = host_count m \<and> host_info m' = host_info m
     \<and> nr_active m' = int (length (filter (connected env (host_info m)) [0..<host_count m]))"
proof -
  let ?m0 = "m\<lparr>nr_ackd := 0, nr_active := 0, valid := 1, cl_params := launcher_params\<rparr>"
  have alloc: "\<forall>i\<in>set [0..<host_count ?m0]. host_info ?m0 i \<noteq> None"
    using assms by simp
  have params: "cl_params ?m0 = launcher_params\<lparr>remote_ip := 0\<rparr>"
    by (simp add: launcher_params_def)
  from setup_loop_result [OF alloc params, of env] show ?thesis
    by (auto simp: launcher_session_setup_def Let_def)
qed

text \<open>
  Claim C10. Whenever setup returns, it returns 0; \<open>main\<close> never leaves through the
  exit taken when setup fails; and once the command line is accepted and the host
  file gives at least one host, setup returns 0 with \<open>nr_active\<close> the number of connected
  hosts (possibly none), dispatch and the event loop run, and \<open>main\<close> returns 0 after the
  final cleanup.
\<close>

theorem C10_setup_always_succeeds:
  "(launcher_session_setup env m = Inr (r, m') \<longrightarrow> r = 0)
   \<and> main env argv evs \<noteq> Inl (Exit c Setup_failed)
   \<and> (parse_cmdline argv launcher_session = (0, m1)
        \<and> parse_hostfile env (host_file m1) m1 = Inr (n, m2) \<and> 0 < n
      \<longrightarrow> (\<exists>m3 r4 m4. launcher_session_setup env m2 = Inr (0, m3)
             \<and> nr_active m3
                 = int (length (filter (connected env (host_info m2)) [0..<host_count m2]))
             \<and> launcher_session_start env evs m3 = Inr (r4, m4)
             \<and> main env argv evs = Inr (0, launcher_session_cleanup m4)))"
proof (intro conjI impI)
  assume "launcher_session_setup env m = Inr (r, m')"
  then show "r = 0"
    by (rule setup_returns_0)
next
  show "main env argv evs \<noteq> Inl (Exit c Setup_failed)"
    by (auto simp: main_def parse_hostfile_def launcher_session_setup_def
        launcher_session_start_def Let_def
        split: prod.splits sum.splits option.splits if_splits
        dest: hostfile_loop_Inl setup_loop_Inl start_loop_Inl)
next
  assume parsed: "parse_cmdline argv launcher_session = (0, m1)
        \<and> parse_hostfile env (host_file m1) m1 = Inr (n, m2) \<and> 0 < n"
  then have alloc: "\<forall>i<host_count m2. host_info m2 i \<noteq> None"
    using parse_hostfile_allocated by blast
  from setup_total [OF alloc, of env] obtain m3 where
    ret3: "launcher_session_setup env m2 = Inr (0, m3)"
    and same: "host_count m3 = host_count m2" "host_info m3 = host_info m2"
    and act: "nr_active m3
                 = int (length (filter (connected env (host_info m2)) [0..<host_count m2]))"
    by blast
  have alloc3: "\<forall>i<host_count m3. host_info m3 i \<noteq> None"
    using alloc by (simp add: same)
  from start_result [OF alloc3, of env evs] obtain r4 m4 where
    ret4: "launcher_session_start env evs m3 = Inr (r4, m4)"
    by blast
  have "main env argv evs = Inr (0, launcher_session_cleanup m4)"
    using parsed ret3 ret4 by (simp add: main_def)
  with ret3 act ret4
  show "\<exists>m3 r4 m4. launcher_session_setup env m2 = Inr (0, m3)
             \<and> nr_active m3
                 = int (length (filter (connected env (host_info m2)) [0..<host_count m2]))
             \<and> launcher_session_start env evs m3 = Inr (r4, m4)
             \<and> main env argv evs = Inr (0, launcher_session_cleanup m4)"
    by blast
qed

text \<open>No name resolves: setup returns 0 with no active connection, and \<open>main\<close> still
  goes through dispatch and returns 0.\<close>

theorem C10_setup_always_succeeds_witness:
  "\<exists>m1 m2 m3 r4 m4.
     parse_cmdline demo_argv launcher_session = (0, m1)
     \<and> parse_hostfile demo_env_down (host_file m1) m1 = Inr (2, m2)
     \<and> launcher_session_setup demo_env_down m2 = Inr (0, m3)
     \<and> nr_active m3 = 0
     \<and> launcher_session_start demo_env_down [] m3 = Inr (r4, m4)
     \<and> main demo_env_down demo_argv [] = Inr (0, launcher_session_cleanup m4)"
proof -
  define m1 where "m1 = snd (parse_cmdline demo_argv launcher_session)"
  have p1: "parse_cmdline demo_argv launcher_session = (0, m1)"
    unfolding m1_def by (simp add: cmdline_defs demo_argv_def launcher_session_def)
  have hf: "host_file m1 = ''hosts''"
    unfolding m1_def by (simp add: cmdline_defs demo_argv_def launcher_session_def)
  have big: "2 \<le> max_hostname_len demo_env_down" and len: "max_hostname_len demo_env_down = 8"
    and cap: "host_capacity demo_env_down = 4"
    by (simp_all add: demo_env_down_def demo_env_def)
  have ok: "malloc_ok demo_env_down j" for j
    by (simp add: demo_env_down_def demo_env_def)
  have bytes: "fopen_rb demo_env_down ''hosts''
                 = Some (''alpha'' @ [CHR 0x0A] @ ''beta'' @ [CHR 0x0A])"
    by (simp add: demo_env_down_def demo_env_def)
  obtain m2 where p2: "parse_hostfile demo_env_down (host_file m1) m1 = Inr (2, m2)"
    and count: "host_count m2 = 2"
    by (simp add: hf parse_hostfile_def bytes hostfile_loop_Cons [OF big]
        hostfile_loop_Nil [OF big] len cap fgets_chars_numeral hostfile_entry_def
        alloc_host_entry_def ok strcpy_def emit_def Let_def)
  have down: "connected demo_env_down hosts i = False" for hosts i
    by (simp add: connected_def attempt_def demo_env_down_def split: option.splits)
  have alloc: "\<forall>i<host_count m2. host_info m2 i \<noteq> None"
    using parse_hostfile_allocated [OF p2] by simp
  from setup_total [OF alloc, of demo_env_down] obtain m3 where
    ret3: "launcher_session_setup demo_env_down m2 = Inr (0, m3)"
    by blast
  from C10_setup_always_succeeds [of demo_env_down m2 0 m3 demo_argv "[]" 2 m1 2 m2] ret3 p1 p2
  show ?thesis
    by (simp add: down)
qed

end
